theory Spec2Isabelle
  imports Main
begin

section \<open>The editor buffer\<close>

text \<open>
  The engine (class \<open>CodeMirrorBlocks\<close>) drives a CodeMirror editor through its
  public interface. The editor itself is a collaborator; the part of it that the engine
  reads and writes is modelled here: the document text, positions \<open>{line, ch}\<close>, the
  conversion \<open>indexFromPos\<close>, and \<open>replaceRange\<close>. Texts are strings of
  8-bit characters, and lines end at the character \<open>newline\<close>.

  Of the engine, the theory holds the functions that the properties below are about: mode
  switching, \<open>markText\<close>, the navigation to the next and the previous node, the editing
  of a literal in place, drag and drop, the quarantine of typed or pasted text, and the
  dispatcher of node events. Copy and cut, the dispatch of keys, the editing of white
  space and the queries for markers are left out.
\<close>

record pos =
  line :: nat
  ch :: nat

definition newline :: char where
  "newline = CHR 0x0A"

text \<open>
  \<open>indexOf l c s\<close> is the character offset of line \<open>l\<close>, column \<open>c\<close> in the text
  \<open>s\<close>, with the editor's clipping: a column past the end of its line is the end of that
  line, and a line past the last one is the end of the document.
\<close>

fun indexOf :: "nat \<Rightarrow> nat \<Rightarrow> string \<Rightarrow> nat" where
  "indexOf l c [] = 0"
| "indexOf l c (x # s) =
     (if x = newline then (case l of 0 \<Rightarrow> 0 | Suc l' \<Rightarrow> 1 + indexOf l' c s)
      else if l = 0 then (case c of 0 \<Rightarrow> 0 | Suc c' \<Rightarrow> 1 + indexOf 0 c' s)
      else 1 + indexOf l c s)"

definition indexFromPos :: "string \<Rightarrow> pos \<Rightarrow> nat" where
  "indexFromPos s p = indexOf (line p) (ch p) s"

text \<open>
  \<open>inDoc l c s\<close>: the position names a place of the text (its line exists and its column
  is at most the length of that line), so that no clipping happens.
\<close>

fun inDoc :: "nat \<Rightarrow> nat \<Rightarrow> string \<Rightarrow> bool" where
  "inDoc l c [] = (l = 0 \<and> c = 0)"
| "inDoc l c (x # s) =
     (if x = newline then (case l of 0 \<Rightarrow> c = 0 | Suc l' \<Rightarrow> inDoc l' c s)
      else if l = 0 then (case c of 0 \<Rightarrow> True | Suc c' \<Rightarrow> inDoc 0 c' s)
      else inDoc l c s)"

definition validPos :: "string \<Rightarrow> pos \<Rightarrow> bool" where
  "validPos s p = inDoc (line p) (ch p) s"

text \<open>The total order of positions by \<open>(line, ch)\<close>.\<close>

definition posLE :: "pos \<Rightarrow> pos \<Rightarrow> bool" where
  "posLE p q = (line p < line q \<or> (line p = line q \<and> ch p \<le> ch q))"

definition posLT :: "pos \<Rightarrow> pos \<Rightarrow> bool" where
  "posLT p q = (line p < line q \<or> (line p = line q \<and> ch p < ch q))"

section \<open>Errors\<close>

text \<open>
  What the JavaScript can throw in the modelled functions: \<open>TypeError\<close> for a property
  read on \<open>undefined\<close> or \<open>null\<close>, \<open>Error msg\<close> for the engine's own
  \<open>throw new Error(msg)\<close>, and the two exceptions of \<open>DOMTokenList\<close> for an empty token
  and for a token with white space.
\<close>

datatype error = TypeError | Error string | SyntaxError | InvalidCharacterError

section \<open>DOM elements\<close>

datatype handler = SaveEdit | SaveWhiteSpace | HandleEditKeyDown

text \<open>
  The properties of an element that the engine touches. \<open>attr_line\<close> and \<open>attr_ch\<close>
  are the attributes \<open>line\<close> and \<open>ch\<close> written by the renderer (absent: \<open>None\<close>),
  held by their numeric value.
\<close>

record elem =
  classList :: "string list"
  el_id :: string
  attr_line :: "nat option"
  attr_ch :: "nat option"
  innerText :: string
  title :: string
  cssText :: string
  contentEditable :: bool
  onblur :: "handler option"
  onkeydown :: "handler option"
  oldText :: "string option"

text \<open>
  An element of the document with its chain of ancestors. The chain ends at
  \<open>document.body\<close>, which is the element without a parent.
\<close>

datatype element = Element (props: elem) (parentNode: "element option")

definition contains :: "element \<Rightarrow> string \<Rightarrow> bool" where
  "contains e c = (c \<in> set (classList (props e)))"

fun onElem :: "(elem \<Rightarrow> elem) \<Rightarrow> element \<Rightarrow> element" where
  "onElem f (Element d p) = Element (f d) p"

definition addClass :: "string \<Rightarrow> element \<Rightarrow> element" where
  "addClass c = onElem (\<lambda>d. if c \<in> set (classList d) then d else d\<lparr>classList := classList d @ [c]\<rparr>)"

definition removeClass :: "string \<Rightarrow> element \<Rightarrow> element" where
  "removeClass c = onElem (\<lambda>d. d\<lparr>classList := removeAll c (classList d)\<rparr>)"

definition getText :: "element \<Rightarrow> string" where
  "getText e = innerText (props e)"

text \<open>
  \<open>getLocationFromEl\<close>: the position stored on an element, or \<open>null\<close> when one of the
  two attributes is missing.
\<close>

definition getLocationFromEl :: "element \<Rightarrow> pos option" where
  "getLocationFromEl e =
     (case (attr_line (props e), attr_ch (props e)) of
        (Some l, Some c) \<Rightarrow> Some \<lparr>line = l, ch = c\<rparr>
      | _ \<Rightarrow> None)"

text \<open>
  \<open>findNearestNodeEl\<close>: walk up from the element until one carries the class
  \<open>blocks-node\<close>; \<open>null\<close> when \<open>document.body\<close> is reached.
\<close>

fun findNearestNodeEl :: "element \<Rightarrow> element option" where
  "findNearestNodeEl (Element d None) = None"
| "findNearestNodeEl (Element d (Some p)) =
     (if ''blocks-node'' \<in> set (classList d) then Some (Element d (Some p))
      else findNearestNodeEl p)"

text \<open>
  The match of \<open>/block-node-(.*)/\<close> against an element id: the first occurrence of
  \<open>block-node-\<close>, and as group 1 the rest of the string up to a line terminator.
\<close>

fun matchBlockNode :: "string \<Rightarrow> string option" where
  "matchBlockNode [] = None"
| "matchBlockNode (x # s) =
     (if take 11 (x # s) = ''block-node-''
      then Some (takeWhile (\<lambda>c. c \<noteq> newline \<and> c \<noteq> CHR 0x0D) (drop 11 (x # s)))
      else matchBlockNode s)"

section \<open>The editor state\<close>

type_synonym options = "(string \<times> string) list"

text \<open>
  A text marker of the editor: its range, the widget that replaces the text (the renderer
  sets it), the \<open>BlockMarker\<close> stored under the \<open>MARKER\<close> symbol (given by its options),
  and the options of a marker made by the editor's own \<open>markText\<close>.
\<close>

record mark =
  mfrom :: pos
  mto :: pos
  replacedWith :: "element option"
  marker :: "options option"
  moptions :: options

text \<open>The calls that change the editor's document or bookmarks, in the order issued.\<close>

datatype cm_call =
    ReplaceRange string pos "pos option"
  | SetBookmark nat pos
  | BookmarkClear nat

record cm_state =
  doc :: string
  cursor :: pos
  marks :: "mark list"
  bookmarks :: "(nat \<times> pos) list"
  wrapper :: "string list"
  scrolledTo :: "pos option"
  calls :: "cm_call list"

definition getRange :: "cm_state \<Rightarrow> pos \<Rightarrow> pos \<Rightarrow> string" where
  "getRange c p q =
     (let i = indexFromPos (doc c) p; j = indexFromPos (doc c) q
      in drop (min i j) (take (max i j) (doc c)))"

text \<open>
  \<open>replaceRange text from to\<close>: both ends are clipped, a missing \<open>to\<close> is \<open>from\<close>, the
  ends are put in order, and the text between them is replaced.
\<close>

definition replaceRange :: "string \<Rightarrow> pos \<Rightarrow> pos option \<Rightarrow> cm_state \<Rightarrow> cm_state" where
  "replaceRange text from to c =
     (let i = indexFromPos (doc c) from;
          j = (case to of None \<Rightarrow> i | Some q \<Rightarrow> indexFromPos (doc c) q)
      in c\<lparr>doc := take (min i j) (doc c) @ text @ drop (max i j) (doc c),
            calls := calls c @ [ReplaceRange text from to]\<rparr>)"

definition setBookmark :: "pos \<Rightarrow> cm_state \<Rightarrow> nat \<times> cm_state" where
  "setBookmark p c =
     (let mk = length (calls c)
      in (mk, c\<lparr>bookmarks := bookmarks c @ [(mk, p)], calls := calls c @ [SetBookmark mk p]\<rparr>))"

definition bookmarkClear :: "nat \<Rightarrow> cm_state \<Rightarrow> cm_state" where
  "bookmarkClear mk c =
     c\<lparr>bookmarks := filter (\<lambda>b. fst b \<noteq> mk) (bookmarks c), calls := calls c @ [BookmarkClear mk]\<rparr>"

text \<open>\<open>cm.findMarks(from, to)\<close>: the markers whose range meets the given one.\<close>

definition overlaps :: "pos \<Rightarrow> pos \<Rightarrow> mark \<Rightarrow> bool" where
  "overlaps from to m = (posLT (mfrom m) to \<and> posLT from (mto m))"

section \<open>Nodes, the tree and the engine state\<close>

text \<open>
  A node of the parsed tree, with the fields the engine reads: \<open>nid\<close>, \<open>ntype\<close>,
  \<open>nfrom\<close> and \<open>nto\<close> are the node's \<open>id\<close>, \<open>type\<close>, \<open>from\<close> and \<open>to\<close>;
  \<open>el\<close> is the element the renderer bound to it; \<open>quarantine\<close> is the bookmark of a
  node made by \<open>insertionQuarantine\<close>.
\<close>

record node =
  nid :: string
  ntype :: string
  nfrom :: pos
  nto :: pos
  el :: element
  quarantine :: "nat option"

text \<open>
  The tree (class \<open>AST\<close>). Its methods \<open>getNodeAfter\<close> and \<open>getNodeBefore\<close> take a node
  or a cursor position and answer a node or nothing; their source is not part of the
  files at hand, so they are fields of the record: every theorem below holds for whatever
  they compute.
\<close>

record ast =
  rootNodes :: "node list"
  nodeMap :: "string \<Rightarrow> node option"
  getNodeAfter :: "node + pos \<Rightarrow> node option"
  getNodeBefore :: "node + pos \<Rightarrow> node option"

text \<open>
  The values \<open>blockMode\<close> takes: \<open>false\<close> (the constructor's value) or a string, the
  name of a block mode. \<open>truthy\<close> is JavaScript's conversion to a boolean, and
  \<open>toToken\<close> the conversion to a string that \<open>classList.add\<close> and
  \<open>classList.remove\<close> apply to their argument.
\<close>

datatype mode = JFalse | JStr string

fun truthy :: "mode \<Rightarrow> bool" where
  "truthy JFalse = False"
| "truthy (JStr s) = (s \<noteq> [])"

fun toToken :: "mode \<Rightarrow> string" where
  "toToken JFalse = ''false''"
| "toToken (JStr s) = s"

record event =
  etype :: string
  target :: element
  dataTransfer :: "(string \<times> string) list"
  effectAllowed :: string
  clipboardData :: "(string \<times> string) list"
  which :: nat
  pageX :: int
  pageY :: int
  defaultPrevented :: bool
  propagationStopped :: bool

definition preventDefault :: "event \<Rightarrow> event" where
  "preventDefault e = e\<lparr>defaultPrevented := True\<rparr>"

definition stopPropagation :: "event \<Rightarrow> event" where
  "stopPropagation e = e\<lparr>propagationStopped := True\<rparr>"

text \<open>\<open>getData\<close> answers the empty string for a format that holds no data.\<close>

definition getData :: "(string \<times> string) list \<Rightarrow> string \<Rightarrow> string" where
  "getData dt k = (case map_of dt k of None \<Rightarrow> [] | Some v \<Rightarrow> v)"

definition setData :: "string \<Rightarrow> string \<Rightarrow> (string \<times> string) list \<Rightarrow> (string \<times> string) list" where
  "setData k v dt = (k, v) # filter (\<lambda>kv. fst kv \<noteq> k) dt"

text \<open>A callback handed to \<open>setTimeout\<close>, with its delay in milliseconds.\<close>

datatype timer = EditLiteralLater node event nat

text \<open>
  The state of one \<open>CodeMirrorBlocks\<close> object, with the two pieces of the document it
  reads (\<open>document.activeElement\<close>) and writes (the console). \<open>willInsertNode\<close> is the
  client's hook that may rewrite the dropped text; \<open>didInsertNode\<close> is the client's
  notification hook, whose calls are recorded in \<open>didInsertCalls\<close>.
\<close>

record blocks =
  cm :: cm_state
  ast :: "ast option"
  blockMode :: mode
  hasInvalidEdit :: bool
  willInsertNode :: "(string \<Rightarrow> node \<Rightarrow> pos \<Rightarrow> node option \<Rightarrow> string) option"
  didInsertNode :: bool
  didInsertCalls :: "(string \<times> node \<times> pos \<times> node option) list"
  timers :: "timer list"
  console :: "string list"
  activeElement :: element

text \<open>
  The collaborators outside the engine: the parser (\<open>parse\<close>, \<open>lex\<close>, which answers
  the exception it throws or nothing, and \<open>getExceptionMessage\<close>, which may throw in
  turn), the renderer (\<open>parse\<close> yields the nodes with the elements the renderer binds to
  them; \<open>render\<close> gives the markers that rendering one root node attaches), and the editor's
  \<open>coordsChar\<close>, which answers a position and its flag \<open>outside\<close>.
\<close>

record env =
  parse :: "string \<Rightarrow> ast"
  lex :: "string \<Rightarrow> string option"
  getExceptionMessage :: "string \<Rightarrow> string option"
  render :: "node \<Rightarrow> mark list"
  coordsChar :: "int \<Rightarrow> int \<Rightarrow> pos \<times> bool"

section \<open>Mode switching and rendering\<close>

definition clearMarks_in :: "pos \<Rightarrow> pos \<Rightarrow> cm_state \<Rightarrow> cm_state" where
  "clearMarks_in from to c = c\<lparr>marks := filter (\<lambda>m. \<not> overlaps from to m) (marks c)\<rparr>"

definition lineCount :: "cm_state \<Rightarrow> nat" where
  "lineCount c = Suc (length (filter (\<lambda>x. x = newline) (doc c)))"

text \<open>\<open>_clearMarks\<close>: clear every marker found between the start and the line count.\<close>

definition clearMarks :: "blocks \<Rightarrow> blocks" where
  "clearMarks this =
     this\<lparr>cm := clearMarks_in \<lparr>line = 0, ch = 0\<rparr> \<lparr>line = lineCount (cm this), ch = 0\<rparr> (cm this)\<rparr>"

text \<open>\<open>render()\<close>: parse the whole text, clear the markers, render every root node.\<close>

definition renderAll :: "env \<Rightarrow> blocks \<Rightarrow> blocks" where
  "renderAll E this =
     (let a = parse E (doc (cm this));
          this1 = clearMarks (this\<lparr>ast := Some a\<rparr>)
      in this1\<lparr>cm := (cm this1)\<lparr>marks := marks (cm this1) @ concat (map (render E) (rootNodes a))\<rparr>\<rparr>)"

definition handleChange :: "env \<Rightarrow> blocks \<Rightarrow> blocks" where
  "handleChange E this = (if truthy (blockMode this) then renderAll E this else this)"

text \<open>
  \<open>classList.add\<close> and \<open>classList.remove\<close> on the editor's wrapper element. Both throw
  on an empty token and on a token with white space.
\<close>

definition tokenError :: "string \<Rightarrow> error option" where
  "tokenError t =
     (if t = [] then Some SyntaxError
      else if (\<exists>c\<in>set t. c \<in> {CHR '' '', CHR 0x09, CHR 0x0A, CHR 0x0C, CHR 0x0D})
      then Some InvalidCharacterError else None)"

definition wrapperRemove :: "string \<Rightarrow> cm_state \<Rightarrow> error + cm_state" where
  "wrapperRemove t c =
     (case tokenError t of Some e \<Rightarrow> Inl e
      | None \<Rightarrow> Inr (c\<lparr>wrapper := removeAll t (wrapper c)\<rparr>))"

definition wrapperAdd :: "string \<Rightarrow> cm_state \<Rightarrow> error + cm_state" where
  "wrapperAdd t c =
     (case tokenError t of Some e \<Rightarrow> Inl e
      | None \<Rightarrow> Inr (if t \<in> set (wrapper c) then c else c\<lparr>wrapper := wrapper c @ [t]\<rparr>))"

text \<open>
  \<open>setBlockMode\<close>, branch by branch. \<open>prepareTransition\<close> and \<open>renderTransition\<close>
  animate clones of the elements and leave the modelled state as it is.
\<close>

definition setBlockMode :: "env \<Rightarrow> mode \<Rightarrow> blocks \<Rightarrow> error + blocks" where
  "setBlockMode E m this =
     (if m = blockMode this then Inr this
      else if \<not> truthy m then
        Inr (this\<lparr>cm := (cm this)\<lparr>marks := []\<rparr>, blockMode := m\<rparr>)
      else if truthy (blockMode this) then
        (case wrapperRemove (toToken (blockMode this)) (cm this) of Inl e \<Rightarrow> Inl e
         | Inr c1 \<Rightarrow>
           (case wrapperAdd (toToken m) c1 of Inl e \<Rightarrow> Inl e
            | Inr c2 \<Rightarrow> Inr ((renderAll E (this\<lparr>cm := c2\<rparr>))\<lparr>blockMode := m\<rparr>)))
      else
        (case wrapperRemove (toToken (blockMode this)) (cm this) of Inl e \<Rightarrow> Inl e
         | Inr c1 \<Rightarrow>
           (case wrapperAdd (toToken m) c1 of Inl e \<Rightarrow> Inl e
            | Inr c2 \<Rightarrow> Inr ((renderAll E (this\<lparr>cm := c2\<rparr>))\<lparr>blockMode := m\<rparr>))))"

section \<open>Decorations\<close>

definition supportedOptions :: "string list" where
  "supportedOptions = [''css'', ''className'', ''title'']"

text \<open>
  The loop \<open>for (let option in options)\<close> of \<open>markText\<close>: the error thrown at the first
  key that is not supported, or nothing.
\<close>

fun checkOptions :: "options \<Rightarrow> error option" where
  "checkOptions [] = None"
| "checkOptions ((k, v) # kvs) =
     (if k \<in> set supportedOptions then checkOptions kvs
      else Some (Error (''option \"'' @ k @ ''\" is not supported by markText'')))"

definition opt :: "options \<Rightarrow> string \<Rightarrow> string" where
  "opt options k = (case map_of options k of None \<Rightarrow> [] | Some v \<Rightarrow> v)"

text \<open>The class names in a \<open>className\<close> string, which spaces separate.\<close>

fun splitAcc :: "string \<Rightarrow> string \<Rightarrow> string list" where
  "splitAcc acc [] = (if acc = [] then [] else [acc])"
| "splitAcc acc (x # s) =
     (if x = CHR '' '' then (if acc = [] then splitAcc [] s else acc # splitAcc [] s)
      else splitAcc (acc @ [x]) s)"

definition splitTokens :: "string \<Rightarrow> string list" where
  "splitTokens s = splitAcc [] s"

definition decorate :: "options \<Rightarrow> element \<Rightarrow> element" where
  "decorate options =
     onElem (\<lambda>d.
       let d1 = (if opt options ''css'' \<noteq> [] then d\<lparr>cssText := opt options ''css''\<rparr> else d);
           d2 = (if opt options ''className'' \<noteq> []
                 then d1\<lparr>classList := classList d1 @ splitTokens (opt options ''className'')\<rparr> else d1)
       in (if opt options ''title'' \<noteq> [] then d2\<lparr>title := opt options ''title''\<rparr> else d2))"

definition isBlocksNodeMark :: "mark \<Rightarrow> bool" where
  "isBlocksNodeMark m =
     (case replacedWith m of None \<Rightarrow> False | Some w \<Rightarrow> contains w ''blocks-node'')"

text \<open>
  The loop over the markers found: the first one that is the widget of a node is
  decorated and gets the \<open>BlockMarker\<close>; the answer is the list of markers after that, or
  nothing when no marker qualifies.
\<close>

fun markFirst :: "pos \<Rightarrow> pos \<Rightarrow> options \<Rightarrow> mark list \<Rightarrow> mark list option" where
  "markFirst from to options [] = None"
| "markFirst from to options (m # ms) =
     (if overlaps from to m \<and> isBlocksNodeMark m
      then Some (m\<lparr>replacedWith := map_option (decorate options) (replacedWith m),
                   marker := Some options\<rparr> # ms)
      else map_option (\<lambda>r. m # r) (markFirst from to options ms))"

text \<open>
  \<open>markText\<close>: an error with the state at the throw, or the new state with a flag that
  says whether a \<open>BlockMarker\<close> was returned.
\<close>

definition markText ::
    "pos \<Rightarrow> pos \<Rightarrow> options \<Rightarrow> blocks \<Rightarrow> (error \<times> blocks) + (blocks \<times> bool)" where
  "markText from to options this =
     (case checkOptions options of Some e \<Rightarrow> Inl (e, this)
      | None \<Rightarrow>
        if options = [] then Inr (this, False)
        else (case markFirst from to options (marks (cm this)) of
                Some ms \<Rightarrow> Inr (this\<lparr>cm := (cm this)\<lparr>marks := ms\<rparr>\<rparr>, True)
              | None \<Rightarrow>
                Inr (this\<lparr>cm := (cm this)\<lparr>marks := marks (cm this) @
                       [\<lparr>mfrom = from, mto = to, replacedWith = None, marker = None,
                         moptions = options\<rparr>]\<rparr>\<rparr>, False)))"

section \<open>Navigation and selection\<close>

text \<open>
  \<open>findNodeFromEl\<close>. Reading \<open>this.ast.nodeMap\<close> while \<open>this.ast\<close> is still \<open>null\<close>
  throws.
\<close>

definition findNodeFromEl :: "blocks \<Rightarrow> element \<Rightarrow> error + node option" where
  "findNodeFromEl this e =
     (case findNearestNodeEl e of None \<Rightarrow> Inr None
      | Some e' \<Rightarrow>
        (case matchBlockNode (el_id (props e')) of None \<Rightarrow> Inr None
         | Some k \<Rightarrow>
           (case ast this of None \<Rightarrow> Inl TypeError
            | Some a \<Rightarrow> Inr (nodeMap a k))))"

definition getSelectedNode :: "blocks \<Rightarrow> error + node option" where
  "getSelectedNode this = findNodeFromEl this (activeElement this)"

definition selectNode :: "node \<Rightarrow> event \<Rightarrow> blocks \<Rightarrow> event \<times> blocks" where
  "selectNode n e this =
     (stopPropagation e,
      this\<lparr>activeElement := el n, cm := (cm this)\<lparr>scrolledTo := Some (nfrom n)\<rparr>\<rparr>)"

text \<open>\<open>el.matches('.blocks-hidden *')\<close>: some proper ancestor carries the class.\<close>

fun hiddenAncestor :: "element \<Rightarrow> bool" where
  "hiddenAncestor (Element d None) = False"
| "hiddenAncestor (Element d (Some p)) = (contains p ''blocks-hidden'' \<or> hiddenAncestor p)"

definition isNodeHidden :: "node \<Rightarrow> bool" where
  "isNodeHidden n = (contains (el n) ''blocks-hidden'' \<or> hiddenAncestor (el n))"

text \<open>
  The loop \<open>while (this.isNodeHidden(nextNode)) nextNode = step(nextNode)\<close> of
  \<open>selectNextNode\<close> and \<open>selectPrevNode\<close>, where \<open>step\<close> is \<open>getNodeAfter\<close> or
  \<open>getNodeBefore\<close>. \<open>isNodeHidden\<close> reads \<open>node.el\<close>, which throws when the node is
  missing. The loop may run forever: then the value is \<open>None\<close>.
\<close>

partial_function (option) skipHidden ::
    "(node + pos \<Rightarrow> node option) \<Rightarrow> node option \<Rightarrow> (error + node) option" where
  "skipHidden step n =
     (case n of None \<Rightarrow> Some (Inl TypeError)
      | Some nd \<Rightarrow> if isNodeHidden nd then skipHidden step (step (Inl nd)) else Some (Inr nd))"

definition selectFrom ::
    "(ast \<Rightarrow> node + pos \<Rightarrow> node option) \<Rightarrow> event \<Rightarrow> blocks \<Rightarrow> (error + event \<times> blocks) option" where
  "selectFrom step e this =
     (case getSelectedNode this of Inl err \<Rightarrow> Some (Inl err)
      | Inr sel \<Rightarrow>
        (let nodeOrCursor = (case sel of Some n \<Rightarrow> Inl n | None \<Rightarrow> Inr (cursor (cm this)))
         in case ast this of None \<Rightarrow> Some (Inl TypeError)
            | Some a \<Rightarrow>
              (case skipHidden (step a) (step a nodeOrCursor) of None \<Rightarrow> None
               | Some (Inl err) \<Rightarrow> Some (Inl err)
               | Some (Inr n) \<Rightarrow> Some (Inr (selectNode n e this)))))"

definition selectNextNode :: "event \<Rightarrow> blocks \<Rightarrow> (error + event \<times> blocks) option" where
  "selectNextNode e this = selectFrom getNodeAfter e this"

definition selectPrevNode :: "event \<Rightarrow> blocks \<Rightarrow> (error + event \<times> blocks) option" where
  "selectPrevNode e this = selectFrom getNodeBefore e this"

section \<open>Editing a literal in place\<close>

text \<open>
  The editor notifies \<open>handleChange\<close> (subscribed in the constructor) of every change
  to the document; \<open>editBuffer\<close> is \<open>this.cm.replaceRange\<close> outside of an operation,
  with that notification.
\<close>

definition editBuffer :: "env \<Rightarrow> string \<Rightarrow> pos \<Rightarrow> pos option \<Rightarrow> blocks \<Rightarrow> blocks" where
  "editBuffer E text from to this = handleChange E (this\<lparr>cm := replaceRange text from to (cm this)\<rparr>)"

definition saveEditableEl ::
    "env \<Rightarrow> element \<Rightarrow> string \<Rightarrow> pos \<Rightarrow> pos \<Rightarrow> blocks \<Rightarrow> element \<times> blocks" where
  "saveEditableEl E nodeEl text from to this =
     (removeClass ''blocks-error'' (removeClass ''blocks-editing''
        (onElem (\<lambda>d. d\<lparr>onblur := None, onkeydown := None, contentEditable := False\<rparr>) nodeEl)),
      editBuffer E text from (Some to) this)"

definition checkEditableEl ::
    "env \<Rightarrow> element \<Rightarrow> string \<Rightarrow> blocks \<Rightarrow> bool \<times> element \<times> blocks" where
  "checkEditableEl E nodeEl text this =
     (case lex E text of
        None \<Rightarrow> (True, onElem (\<lambda>d. d\<lparr>title := []\<rparr>) nodeEl, this)
      | Some ex \<Rightarrow>
        (let el1 = addClass ''blocks-error'' nodeEl
         in case getExceptionMessage E ex of
              Some msg \<Rightarrow>
                (False, onElem (\<lambda>d. d\<lparr>title := msg\<rparr>) el1,
                 this\<lparr>console := console this @ [''result doesn't parse'']\<rparr>)
            | None \<Rightarrow>
                (False, el1,
                 this\<lparr>console := console this @ [''getExceptionMessage failed'', ''result doesn't parse'']\<rparr>)))"

text \<open>
  \<open>saveEdit\<close>, the blur handler of an element in edit mode. The callback given to
  \<open>setTimeout\<close> is recorded in \<open>timers\<close>.
\<close>

definition saveEdit ::
    "env \<Rightarrow> node \<Rightarrow> element \<Rightarrow> event \<Rightarrow> blocks \<Rightarrow> event \<times> element \<times> blocks" where
  "saveEdit E n nodeEl e this =
     (let e1 = preventDefault e
      in case checkEditableEl E nodeEl (getText nodeEl) this of
           (True, el1, this1) \<Rightarrow>
             (case quarantine n of
                Some mk \<Rightarrow>
                  (let el2 = onElem (\<lambda>d. d\<lparr>innerText := innerText d @ '' ''\<rparr>) el1;
                       this2 = this1\<lparr>cm := bookmarkClear mk (cm this1)\<rparr>;
                       (el3, this3) = saveEditableEl E el2 (getText el2) (nfrom n) (nto n) this2
                   in (e1, el3, this3))
              | None \<Rightarrow>
                  (let (el3, this3) = saveEditableEl E el1 (getText el1) (nfrom n) (nto n) this1
                   in (e1, el3, this3)))
         | (False, el1, this1) \<Rightarrow>
             (e1, el1,
              this1\<lparr>timers := timers this1 @ [EditLiteralLater n e1 50], hasInvalidEdit := True\<rparr>))"

text \<open>
  \<open>editLiteral\<close>: the node's element goes into edit mode. The selection range it sets up
  in the window is not part of the modelled state.
\<close>

definition editLiteral :: "node \<Rightarrow> event \<Rightarrow> blocks \<Rightarrow> node \<times> event" where
  "editLiteral n e this =
     (n\<lparr>el := onElem (\<lambda>d. d\<lparr>onblur := Some SaveEdit, onkeydown := Some HandleEditKeyDown\<rparr>)
               (addClass ''blocks-editing''
                 (onElem (\<lambda>d. d\<lparr>oldText := Some (getRange (cm this) (nfrom n) (nto n)),
                                  contentEditable := True\<rparr>) (el n)))\<rparr>,
      stopPropagation e)"

definition cancelIfErrorExists :: "event \<Rightarrow> blocks \<Rightarrow> event" where
  "cancelIfErrorExists e this =
     (if hasInvalidEdit this then stopPropagation (preventDefault e) else e)"

section \<open>Drag and drop\<close>

definition startDraggingNode :: "node \<Rightarrow> event \<Rightarrow> blocks \<Rightarrow> node \<times> event" where
  "startDraggingNode n e this =
     (n\<lparr>el := addClass ''blocks-dragging'' (el n)\<rparr>,
      (stopPropagation e)
        \<lparr>effectAllowed := ''move'',
         dataTransfer := setData ''text/id'' (nid n)
           (setData ''text/plain'' (getRange (cm this) (nfrom n) (nto n)) (dataTransfer e))\<rparr>)"

definition isDropTarget :: "blocks \<Rightarrow> element \<Rightarrow> error + bool" where
  "isDropTarget this e =
     (if contains e ''blocks-drop-target'' then Inr True
      else case findNodeFromEl this e of Inl err \<Rightarrow> Inl err
           | Inr (Some n) \<Rightarrow> Inr (ntype n \<in> set [''literal'', ''blank''])
           | Inr None \<Rightarrow> Inr True)"

text \<open>
  The function given to \<open>this.cm.operation\<close> in \<open>dropOntoNode\<close>: the two mutations
  of the buffer, on the state of the editor.
\<close>

definition moveOntoLiteral :: "string \<Rightarrow> node \<Rightarrow> node \<Rightarrow> cm_state \<Rightarrow> cm_state" where
  "moveOntoLiteral sourceNodeText sourceNode destinationNode c =
     (if indexFromPos (doc c) (nfrom sourceNode) < indexFromPos (doc c) (nfrom destinationNode)
      then replaceRange [] (nfrom sourceNode) (Some (nto sourceNode))
             (replaceRange sourceNodeText (nfrom destinationNode) (Some (nto destinationNode)) c)
      else replaceRange sourceNodeText (nfrom destinationNode) (Some (nto destinationNode))
             (replaceRange [] (nfrom sourceNode) (Some (nto sourceNode)) c))"

definition moveToPosition :: "string \<Rightarrow> node \<Rightarrow> pos \<Rightarrow> cm_state \<Rightarrow> cm_state" where
  "moveToPosition sourceNodeText sourceNode destination c =
     (if indexFromPos (doc c) (nfrom sourceNode) < indexFromPos (doc c) destination
      then replaceRange [] (nfrom sourceNode) (Some (nto sourceNode))
             (replaceRange sourceNodeText destination None c)
      else replaceRange sourceNodeText destination None
             (replaceRange [] (nfrom sourceNode) (Some (nto sourceNode)) c))"

text \<open>
  The branch of the operation for a destination that is no literal node: the client's
  hooks around an insertion at the destination.
\<close>

definition hookedText ::
    "blocks \<Rightarrow> string \<Rightarrow> node \<Rightarrow> pos \<Rightarrow> node option \<Rightarrow> string" where
  "hookedText this sourceNodeText sourceNode destination destinationNode =
     (case willInsertNode this of
        Some hook \<Rightarrow> hook sourceNodeText sourceNode destination destinationNode
      | None \<Rightarrow> sourceNodeText)"

definition insertDropped ::
    "string \<Rightarrow> node \<Rightarrow> pos \<Rightarrow> node option \<Rightarrow> blocks \<Rightarrow> blocks" where
  "insertDropped sourceNodeText sourceNode destination destinationNode this =
     (let text1 = hookedText this sourceNodeText sourceNode destination destinationNode;
          this1 = this\<lparr>cm := moveToPosition text1 sourceNode destination (cm this)\<rparr>
      in if didInsertNode this1
         then this1\<lparr>didInsertCalls := didInsertCalls this1 @
                 [(text1, sourceNode, destination, destinationNode)]\<rparr>
         else this1)"

text \<open>
  The whole operation. The editor delivers the change notifications of the two edits
  when the operation ends.
\<close>

definition dropOperation ::
    "env \<Rightarrow> string \<Rightarrow> node \<Rightarrow> pos \<Rightarrow> node option \<Rightarrow> blocks \<Rightarrow> blocks" where
  "dropOperation E sourceNodeText sourceNode destination destinationNode this =
     handleChange E (handleChange E
       (case destinationNode of
          Some d \<Rightarrow>
            if ntype d = ''literal''
            then this\<lparr>cm := moveOntoLiteral sourceNodeText sourceNode d (cm this)\<rparr>
            else insertDropped sourceNodeText sourceNode destination destinationNode this
        | None \<Rightarrow> insertDropped sourceNodeText sourceNode destination destinationNode this))"

text \<open>
  The destination of a drop: the position stored on the target element, or else the
  position under the pointer, with its flag \<open>outside\<close>.
\<close>

definition dropDestination :: "env \<Rightarrow> event \<Rightarrow> pos \<times> bool" where
  "dropDestination E e =
     (case getLocationFromEl (target e) of
        Some d \<Rightarrow> (d, False)
      | None \<Rightarrow> coordsChar E (pageX e) (pageY e))"

text \<open>
  \<open>dropOntoNode\<close>. An exception leaves the function with the state reached at the
  throw, so the left summand carries that state too.
\<close>

definition dropOntoNode ::
    "env \<Rightarrow> node option \<Rightarrow> event \<Rightarrow> blocks \<Rightarrow> (error \<times> event \<times> blocks) + (event \<times> blocks)" where
  "dropOntoNode E destinationNode e this =
     (case isDropTarget this (target e) of Inl err \<Rightarrow> Inl (err, e, this)
      | Inr False \<Rightarrow> Inr (e, this)
      | Inr True \<Rightarrow>
        (let e1 = (stopPropagation (preventDefault e))
                    \<lparr>target := removeClass ''blocks-over-target'' (target e)\<rparr>;
             nodeId = getData (dataTransfer e1) ''text/id'';
             this1 = (if nodeId = []
                      then this\<lparr>console := console this @
                             [''data transfer contains no node id. Not sure how to proceed.'']\<rparr>
                      else this)
         in case ast this1 of None \<Rightarrow> Inl (TypeError, e1, this1)
            | Some a \<Rightarrow>
              (case nodeMap a nodeId of
                 None \<Rightarrow>
                   Inl (TypeError, e1,
                        this1\<lparr>console := console this1 @ [''node '' @ nodeId @ '' not found in AST'']\<rparr>)
               | Some sourceNode \<Rightarrow>
                   (let sourceNodeText = getRange (cm this1) (nfrom sourceNode) (nto sourceNode);
                        (destination, outside) = dropDestination E e1;
                        text1 = (if outside then newline # sourceNodeText else sourceNodeText)
                    in if (line destination = line (nto sourceNode) \<and> ch destination = ch (nto sourceNode))
                          \<or> (line destination = line (nfrom sourceNode) \<and> ch destination = ch (nfrom sourceNode))
                       then Inr (e1, this1)
                       else Inr (e1, dropOperation E text1 sourceNode destination destinationNode this1)))))"

section \<open>Quarantine\<close>

text \<open>
  \<open>String.fromCharCode\<close> of one number: the string of the one 16-bit code unit that
  the number gives modulo \<open>65536\<close>. A text of the model is a string of 8-bit characters,
  so a code unit from \<open>128\<close> on is held by the bytes of its UTF-8 form (two bytes below
  \<open>2048\<close>, three bytes from there on) and does not wrap around to another character.
\<close>

definition fromCharCode :: "nat \<Rightarrow> string" where
  "fromCharCode n =
     (let u = n mod 65536
      in if u < 128 then [char_of u]
         else if u < 2048 then [char_of (192 + u div 64), char_of (128 + u mod 64)]
         else [char_of (224 + u div 4096), char_of (128 + (u div 64) mod 64),
               char_of (128 + u mod 64)])"

text \<open>
  The text that \<open>insertionQuarantine\<close> intercepts (the typed character or the pasted
  text), and the filler white space that reproduces the cursor's line and column.
\<close>

definition intercepted :: "event \<Rightarrow> string" where
  "intercepted e =
     (if etype e = ''keypress'' then fromCharCode (which e)
      else getData (clipboardData e) ''text/plain'')"

definition filler :: "pos \<Rightarrow> string" where
  "filler cur = replicate (line cur) newline @ replicate (ch cur) (CHR '' '')"

definition insertionQuarantine ::
    "env \<Rightarrow> event \<Rightarrow> blocks \<Rightarrow> error + (event \<times> node \<times> blocks)" where
  "insertionQuarantine E e this =
     (let e1 = preventDefault e;
          text = intercepted e1;
          cur = cursor (cm this);
          ws = filler cur;
          a = parse E (ws @ ''x'')
      in case rootNodes a of [] \<Rightarrow> Inl TypeError
         | n # rest \<Rightarrow>
           (let c1 = (cm this)\<lparr>marks := marks (cm this) @ render E n\<rparr>;
                n1 = n\<lparr>el := onElem (\<lambda>d. d\<lparr>innerText := text\<rparr>) (el n)\<rparr>;
                n2 = n1\<lparr>nto := (nto n1)\<lparr>ch := ch (nfrom n1)\<rparr>\<rparr>;
                (mk, c2) = setBookmark cur c1;
                n3 = n2\<lparr>quarantine := Some mk\<rparr>
            in Inr (e1, n3, this\<lparr>cm := c2, timers := timers this @ [EditLiteralLater n3 e1 50]\<rparr>)))"

section \<open>The node event dispatcher\<close>

text \<open>
  The methods that the constructor hands to \<open>nodeEventHandler\<close>, and what the returned
  function does with an event: it calls no handler and returns nothing, it returns
  \<open>false\<close>, it calls the white-space handler on the target element, or it calls a
  handler on the node found (which may be missing).
\<close>

datatype listener =
    SelectNode | EditLiteral | EditWhiteSpace | StartDraggingNode | StopDraggingNode
  | HandleDragLeave | HandleDragEnter | DropOntoNode

datatype dispatch =
    NoCall
  | ReturnFalse
  | CallWhiteSpace listener element
  | CallHandler listener "node option"

text \<open>A single function stands for the handler table \<open>{default: handlers}\<close>.\<close>

fun handlerTable :: "listener + (string \<times> listener) list \<Rightarrow> (string \<times> listener) list" where
  "handlerTable (Inl h) = [(''default'', h)]"
| "handlerTable (Inr hs) = hs"

definition nodeEventHandler ::
    "listener + (string \<times> listener) list \<Rightarrow> bool \<Rightarrow> event \<Rightarrow> blocks \<Rightarrow>
     error + (dispatch \<times> event)" where
  "nodeEventHandler handlers callWithNullNode e this =
     (let hs = handlerTable handlers
      in case findNodeFromEl this (target e) of Inl err \<Rightarrow> Inl err
         | Inr found \<Rightarrow>
           if found \<noteq> None \<or> callWithNullNode then
             (case (if contains (target e) ''blocks-white-space'' then map_of hs ''whitespace'' else None) of
                Some h \<Rightarrow> Inr (CallWhiteSpace h (target e), e)
              | None \<Rightarrow>
                if contains (target e) ''blocks-blank'' \<and> etype e = ''dragstart''
                then Inr (ReturnFalse, stopPropagation e)
                else
                  (case (case found of Some n \<Rightarrow> map_of hs (ntype n) | None \<Rightarrow> None) of
                     Some h \<Rightarrow> Inr (CallHandler h found, e)
                   | None \<Rightarrow>
                     (case map_of hs ''default'' of
                        Some h \<Rightarrow> Inr (CallHandler h found, e)
                      | None \<Rightarrow> Inr (NoCall, e))))
           else Inr (NoCall, e))"

text \<open>
  \<open>ondragstart\<close>, as the constructor sets it on the wrapper element:
  \<open>this.nodeEventHandler(this.startDraggingNode)\<close>. The answer holds the event after
  the call and the node whose drag has started, if any.
\<close>

definition ondragstart :: "event \<Rightarrow> blocks \<Rightarrow> error + (event \<times> node option)" where
  "ondragstart e this =
     (case nodeEventHandler (Inl StartDraggingNode) False e this of Inl err \<Rightarrow> Inl err
      | Inr (CallHandler h (Some n), e1) \<Rightarrow>
          (let (n1, e2) = startDraggingNode n e1 this in Inr (e2, Some n1))
      | Inr (CallHandler h None, e1) \<Rightarrow> Inl TypeError
      | Inr (d, e1) \<Rightarrow> Inr (e1, None))"

section \<open>The constructor and small concrete states\<close>

definition plainElem :: elem where
  "plainElem =
     \<lparr>classList = [], el_id = [], attr_line = None, attr_ch = None, innerText = [], title = [],
      cssText = [], contentEditable = False, onblur = None, onkeydown = None, oldText = None\<rparr>"

definition body :: element where
  "body = Element plainElem None"

text \<open>
  The state the constructor sets up around an editor: no tree yet, block mode off, and
  \<open>hasInvalidEdit\<close> not set, which reads as false.
\<close>

definition constructor ::
    "cm_state \<Rightarrow> (string \<Rightarrow> node \<Rightarrow> pos \<Rightarrow> node option \<Rightarrow> string) option \<Rightarrow> bool \<Rightarrow> blocks" where
  "constructor c will did =
     \<lparr>cm = c, ast = None, blockMode = JFalse, hasInvalidEdit = False, willInsertNode = will,
      didInsertNode = did, didInsertCalls = [], timers = [], console = [],
      activeElement = body\<rparr>"

definition origin :: pos where
  "origin = \<lparr>line = 0, ch = 0\<rparr>"

definition newEditor :: "string \<Rightarrow> cm_state" where
  "newEditor s =
     \<lparr>doc = s, cursor = origin, marks = [], bookmarks = [], wrapper = [''CodeMirror''],
      scrolledTo = None, calls = []\<rparr>"

text \<open>The element of a rendered node: class \<open>blocks-node\<close> and id \<open>block-node-\<close>\<open>k\<close>.\<close>

definition nodeElement :: "string \<Rightarrow> string list \<Rightarrow> string \<Rightarrow> element" where
  "nodeElement k cls t =
     Element (plainElem\<lparr>classList := ''blocks-node'' # cls, el_id := ''block-node-'' @ k,
                        innerText := t\<rparr>) (Some body)"

definition literalNode :: "string \<Rightarrow> string \<Rightarrow> nat \<Rightarrow> nat \<Rightarrow> node" where
  "literalNode k t c1 c2 =
     \<lparr>nid = k, ntype = ''literal'', nfrom = \<lparr>line = 0, ch = c1\<rparr>, nto = \<lparr>line = 0, ch = c2\<rparr>,
      el = nodeElement k [''blocks-literal''] t, quarantine = None\<rparr>"

definition emptyTree :: ast where
  "emptyTree =
     \<lparr>rootNodes = [], nodeMap = (\<lambda>k. None), getNodeAfter = (\<lambda>x. None),
      getNodeBefore = (\<lambda>x. None)\<rparr>"

text \<open>
  The position reached from a position by reading a text: a newline leads to the start of
  the next line, every other character one column on.
\<close>

fun advance :: "pos \<Rightarrow> string \<Rightarrow> pos" where
  "advance p [] = p"
| "advance p (x # s) =
     advance (if x = newline then \<lparr>line = Suc (line p), ch = 0\<rparr> else p\<lparr>ch := Suc (ch p)\<rparr>) s"

text \<open>The literal node of the last character of a text, at the place of that character.\<close>

definition lastCharNode :: "string \<Rightarrow> node" where
  "lastCharNode s =
     (let p = advance origin (take (length s - 1) s)
      in \<lparr>nid = ''0'', ntype = ''literal'', nfrom = p, nto = p\<lparr>ch := Suc (ch p)\<rparr>,
          el = nodeElement ''0'' [''blocks-literal''] (drop (length s - 1) s), quarantine = None\<rparr>)"

text \<open>
  A sample of the collaborators: a lexer that accepts every text but \<open>(\<close>; a parser
  that answers one literal node, the one of the last character of the text (for the text
  of a quarantine, that is the sentinel); a renderer that attaches no marker.
\<close>

definition sampleEnv :: env where
  "sampleEnv =
     \<lparr>parse = (\<lambda>s. emptyTree\<lparr>rootNodes := [lastCharNode s]\<rparr>),
      lex = (\<lambda>s. if s = ''('' then Some ''unbalanced'' else None),
      getExceptionMessage = (\<lambda>ex. Some ex),
      render = (\<lambda>n. []),
      coordsChar = (\<lambda>x y. (origin, False))\<rparr>"

definition blankNode :: "string \<Rightarrow> string \<Rightarrow> nat \<Rightarrow> nat \<Rightarrow> node" where
  "blankNode k t c1 c2 =
     \<lparr>nid = k, ntype = ''blank'', nfrom = \<lparr>line = 0, ch = c1\<rparr>, nto = \<lparr>line = 0, ch = c2\<rparr>,
      el = nodeElement k [''blocks-blank''] t, quarantine = None\<rparr>"

text \<open>The three nodes of the text \<open>a bb c\<close>: a literal, a blank and a literal.\<close>

definition nodeA :: node where
  "nodeA = literalNode ''1'' ''a'' 0 1"

definition nodeB :: node where
  "nodeB = blankNode ''2'' ''bb'' 2 4"

definition nodeC :: node where
  "nodeC = literalNode ''3'' ''c'' 5 6"

text \<open>
  Modelled from the spec: the methods \<open>getNodeAfter\<close> and \<open>getNodeBefore\<close> of the
  tree, whose source is not among the files, for a flat tree over a list of nodes in
  document order. The spec has them walk the successor and predecessor relation from a node
  or from the cursor position, and answer none after the last node: the node after a node
  is the next one of the list, the node after a position is the first one that starts
  there or later, and there is none past the last one; the nodes before are the mirror
  image.
\<close>

fun nextIn :: "node list \<Rightarrow> string \<Rightarrow> node option" where
  "nextIn (a # b # r) k = (if nid a = k then Some b else nextIn (b # r) k)"
| "nextIn r k = None"

definition afterIn :: "node list \<Rightarrow> node + pos \<Rightarrow> node option" where
  "afterIn ns x =
     (case x of Inl n \<Rightarrow> nextIn ns (nid n) | Inr p \<Rightarrow> find (\<lambda>m. posLE p (nfrom m)) ns)"

definition beforeIn :: "node list \<Rightarrow> node + pos \<Rightarrow> node option" where
  "beforeIn ns x =
     (case x of Inl n \<Rightarrow> nextIn (rev ns) (nid n) | Inr p \<Rightarrow> find (\<lambda>m. posLE (nto m) p) (rev ns))"

definition treeOf :: "node list \<Rightarrow> ast" where
  "treeOf ns =
     \<lparr>rootNodes = ns, nodeMap = map_of (map (\<lambda>n. (nid n, n)) ns),
      getNodeAfter = afterIn ns, getNodeBefore = beforeIn ns\<rparr>"

text \<open>An editor that holds \<open>a bb c\<close>, with the engine as constructed.\<close>

definition bufferABC :: blocks where
  "bufferABC = constructor (newEditor ''a bb c'') None False"

text \<open>The same editor with its text parsed into the three nodes.\<close>

definition treeABC :: blocks where
  "treeABC = bufferABC\<lparr>ast := Some (treeOf [nodeA, nodeB, nodeC])\<rparr>"

text \<open>An event of the given type on the given element, with nothing else set.\<close>

definition eventOn :: "string \<Rightarrow> element \<Rightarrow> event" where
  "eventOn ty e =
     \<lparr>etype = ty, target = e, dataTransfer = [], effectAllowed = [], clipboardData = [],
      which = 0, pageX = 0, pageY = 0, defaultPrevented = False, propagationStopped = False\<rparr>"

text \<open>
  A drop target at column \<open>c\<close> of the first line, and the drop on an element of a drag
  that carries the node id \<open>k\<close> and the text \<open>t\<close>.
\<close>

definition dropTarget :: "nat \<Rightarrow> element" where
  "dropTarget c =
     Element (plainElem\<lparr>classList := [''blocks-drop-target''], attr_line := Some 0,
                        attr_ch := Some c\<rparr>) (Some body)"

definition dropOf :: "string \<Rightarrow> string \<Rightarrow> element \<Rightarrow> event" where
  "dropOf k t x = (eventOn ''drop'' x)\<lparr>dataTransfer := [(''text/id'', k), (''text/plain'', t)]\<rparr>"

text \<open>The element of a node after the user has typed \<open>t\<close> into it.\<close>

definition edited :: "node \<Rightarrow> string \<Rightarrow> element" where
  "edited n t = onElem (\<lambda>d. d\<lparr>innerText := t\<rparr>) (el n)"

text \<open>
  Two edits of the node \<open>a\<close> in a row: the text \<open>(\<close>, which does not lex, and then the
  text \<open>z\<close>, which does. Each state is the one \<open>saveEdit\<close> leaves at the blur.
\<close>

definition afterBadEdit :: blocks where
  "afterBadEdit = snd (snd (saveEdit sampleEnv nodeA (edited nodeA ''('') (eventOn ''blur'' body) treeABC))"

definition afterGoodEdit :: blocks where
  "afterGoodEdit =
     snd (snd (saveEdit sampleEnv nodeA (edited nodeA ''z'') (eventOn ''blur'' body) afterBadEdit))"

text \<open>An empty editor, a paste of a text, and what \<open>insertionQuarantine\<close> answers.\<close>

definition bufferEmpty :: blocks where
  "bufferEmpty = constructor (newEditor []) None False"

definition pasteOf :: "string \<Rightarrow> event" where
  "pasteOf t = (eventOn ''paste'' body)\<lparr>clipboardData := [(''text/plain'', t)]\<rparr>"

definition quarantined :: "env \<Rightarrow> event \<Rightarrow> blocks \<Rightarrow> event \<times> node \<times> blocks" where
  "quarantined E e this =
     (case insertionQuarantine E e this of Inr r \<Rightarrow> r | Inl err \<Rightarrow> (e, nodeA, this))"

text \<open>
  An editor that holds the two lines \<open>ab\<close> and \<open>cd\<close> with the cursor between \<open>c\<close>
  and \<open>d\<close>, and the press of the key of a character code.
\<close>

definition twoLines :: blocks where
  "twoLines =
     constructor ((newEditor (''ab'' @ newline # ''cd''))\<lparr>cursor := \<lparr>line = 1, ch = 1\<rparr>\<rparr>) None False"

definition keypressOf :: "nat \<Rightarrow> event" where
  "keypressOf k = (eventOn ''keypress'' body)\<lparr>which := k\<rparr>"

text \<open>
  The state after an input went through the quarantine: \<open>insertionQuarantine\<close>, the
  queued \<open>editLiteral\<close>, and the blur of the element as it is.
\<close>

definition afterQuarantine :: "env \<Rightarrow> event \<Rightarrow> blocks \<Rightarrow> blocks" where
  "afterQuarantine E e this =
     (let q = quarantined E e this;
          n' = fst (editLiteral (fst (snd q)) (fst q) (snd (snd q)))
      in snd (snd (saveEdit E n' (el n') (eventOn ''blur'' body) (snd (snd q)))))"

text \<open>An empty document in block mode: its tree has no node.\<close>

definition emptyDoc :: blocks where
  "emptyDoc = bufferEmpty\<lparr>ast := Some (treeOf [])\<rparr>"

text \<open>The tree of \<open>a bb c\<close> with the last node selected.\<close>

definition lastSelected :: blocks where
  "lastSelected = treeABC\<lparr>activeElement := el nodeC\<rparr>"

text \<open>
  A tree whose only node is hidden, with a successor and a predecessor that wrap around
  to it.
\<close>

definition hiddenNode :: node where
  "hiddenNode = nodeA\<lparr>el := nodeElement ''1'' [''blocks-literal'', ''blocks-hidden''] ''a''\<rparr>"

definition hiddenRing :: ast where
  "hiddenRing =
     \<lparr>rootNodes = [hiddenNode], nodeMap = map_of [(''1'', hiddenNode)],
      getNodeAfter = (\<lambda>x. Some hiddenNode), getNodeBefore = (\<lambda>x. Some hiddenNode)\<rparr>"

definition allHidden :: blocks where
  "allHidden = bufferABC\<lparr>ast := Some hiddenRing\<rparr>"

section \<open>Notions used in the statements\<close>

text \<open>The calls on the editor that were issued between two states of the engine.\<close>

definition issued :: "blocks \<Rightarrow> blocks \<Rightarrow> cm_call list" where
  "issued this this' = drop (length (calls (cm this))) (calls (cm this'))"

text \<open>
  The text that \<open>saveEdit\<close> commits for a node: the text of its element, with a space
  behind it for a node from quarantine.
\<close>

definition committedText :: "node \<Rightarrow> element \<Rightarrow> string" where
  "committedText n nodeEl =
     (case quarantine n of None \<Rightarrow> getText nodeEl | Some mk \<Rightarrow> getText nodeEl @ '' '')"

text \<open>An element is in edit mode, as \<open>editLiteral\<close> sets it up.\<close>

definition inEditMode :: "element \<Rightarrow> bool" where
  "inEditMode e =
     (contentEditable (props e) \<and> ''blocks-editing'' \<in> set (classList (props e)) \<and>
      onblur (props e) = Some SaveEdit)"

section \<open>Two edits against the original offsets\<close>

text \<open>
  What the two edits of a relocation give when both are computed against the offsets of
  the original text \<open>s\<close>: an edit is \<open>(from, to, replacement)\<close>, the first one lies
  before the second one, and the text outside the two ranges stays.
\<close>

definition simultaneous :: "string \<Rightarrow> nat \<times> nat \<times> string \<Rightarrow> nat \<times> nat \<times> string \<Rightarrow> string" where
  "simultaneous s first second =
     (case (first, second) of
        ((f1, t1, x1), (f2, t2, x2)) \<Rightarrow> take f1 s @ x1 @ drop t1 (take f2 s) @ x2 @ drop t2 s)"

text \<open>The two edits of a drop: clearing the source node, and replacing a range by a text.\<close>

definition clearing :: "string \<Rightarrow> node \<Rightarrow> nat \<times> nat \<times> string" where
  "clearing s src = (indexFromPos s (nfrom src), indexFromPos s (nto src), [])"

definition replacing :: "string \<Rightarrow> pos \<Rightarrow> pos \<Rightarrow> string \<Rightarrow> nat \<times> nat \<times> string" where
  "replacing s bf bt t = (indexFromPos s bf, indexFromPos s bt, t)"

section \<open>Properties of the buffer\<close>

lemma indexOf_le: "indexOf l c s \<le> length s"
  by (induction s arbitrary: l c) (auto split: nat.splits)

lemma indexOf_origin: "indexOf 0 0 s = 0"
  by (cases s) auto

lemma inDoc_origin: "inDoc 0 0 s"
  by (cases s) auto

lemma inDoc_index_zero: "inDoc l c s \<Longrightarrow> indexOf l c s = 0 \<Longrightarrow> l = 0 \<and> c = 0"
  by (cases s) (auto split: nat.splits if_splits)

lemma inDoc_prefix:
  "inDoc l c (u @ v) \<Longrightarrow> indexOf l c (u @ v) \<le> length u \<Longrightarrow>
   inDoc l c (u @ w) \<and> indexOf l c (u @ w) = indexOf l c (u @ v)"
proof (induction u arbitrary: l c)
  case Nil
  then have "l = 0 \<and> c = 0" using inDoc_index_zero[of l c v] by simp
  then show ?case by (simp add: indexOf_origin inDoc_origin)
next
  case (Cons x u)
  then show ?case by (auto split: nat.splits if_splits)
qed

lemma indexOf_mono:
  "inDoc l c s \<Longrightarrow> inDoc l' c' s \<Longrightarrow> l < l' \<or> (l = l' \<and> c \<le> c') \<Longrightarrow>
   indexOf l c s \<le> indexOf l' c' s"
proof (induction s arbitrary: l c l' c')
  case Nil
  then show ?case by simp
next
  case (Cons x s)
  then show ?case by (fastforce split: nat.splits if_splits)
qed

lemma indexFromPos_le: "indexFromPos s p \<le> length s"
  by (simp add: indexFromPos_def indexOf_le)

lemma indexFromPos_mono:
  "validPos s p \<Longrightarrow> validPos s q \<Longrightarrow> posLE p q \<Longrightarrow> indexFromPos s p \<le> indexFromPos s q"
  unfolding validPos_def posLE_def indexFromPos_def by (rule indexOf_mono)

text \<open>An edit behind a valid position leaves its offset as it is.\<close>

lemma indexFromPos_edit_behind:
  assumes "validPos s p" and "indexFromPos s p \<le> i" and "i \<le> length s"
  shows "indexFromPos (take i s @ w) p = indexFromPos s p"
proof -
  have s: "s = take i s @ drop i s" by simp
  have "inDoc (line p) (ch p) (take i s @ drop i s)"
    using assms(1) by (simp add: validPos_def)
  moreover have "indexOf (line p) (ch p) (take i s @ drop i s) \<le> length (take i s)"
    using assms(2,3) by (simp add: indexFromPos_def)
  ultimately have "indexOf (line p) (ch p) (take i s @ w) = indexOf (line p) (ch p) (take i s @ drop i s)"
    using inDoc_prefix by blast
  then show ?thesis by (simp add: indexFromPos_def)
qed


lemma handleChange_doc: "doc (cm (handleChange E this)) = doc (cm this)"
  by (simp add: handleChange_def renderAll_def clearMarks_def clearMarks_in_def Let_def)

lemma handleChange_calls: "calls (cm (handleChange E this)) = calls (cm this)"
  by (simp add: handleChange_def renderAll_def clearMarks_def clearMarks_in_def Let_def)

lemma doc_replaceRange:
  "doc (replaceRange t p (Some q) c) =
     take (min (indexFromPos (doc c) p) (indexFromPos (doc c) q)) (doc c) @ t @
     drop (max (indexFromPos (doc c) p) (indexFromPos (doc c) q)) (doc c)"
  by (simp add: replaceRange_def Let_def)

lemma doc_insert:
  "doc (replaceRange t p None c) =
     take (indexFromPos (doc c) p) (doc c) @ t @ drop (indexFromPos (doc c) p) (doc c)"
  by (simp add: replaceRange_def Let_def)

lemma calls_replaceRange: "calls (replaceRange t p q c) = calls c @ [ReplaceRange t p q]"
  by (simp add: replaceRange_def Let_def)

text \<open>Source before destination: replace the destination, then clear the source.\<close>

lemma later_edit_first:
  assumes v: "validPos s af" "validPos s at"
      and i: "indexFromPos s af \<le> indexFromPos s at" "indexFromPos s at \<le> ib" "ib \<le> jb"
             "jb \<le> length s"
      and s1: "s1 = take ib s @ t @ drop jb s"
  shows "take (min (indexFromPos s1 af) (indexFromPos s1 at)) s1 @ x @
         drop (max (indexFromPos s1 af) (indexFromPos s1 at)) s1
       = simultaneous s (indexFromPos s af, indexFromPos s at, x) (ib, jb, t)"
proof -
  have l: "ib \<le> length s" using i by simp
  have a: "indexFromPos s1 af = indexFromPos s af"
    unfolding s1 using v(1) i l by (intro indexFromPos_edit_behind) simp_all
  have b: "indexFromPos s1 at = indexFromPos s at"
    unfolding s1 using v(2) i l by (intro indexFromPos_edit_behind) simp_all
  show ?thesis using i l by (simp add: a b) (simp add: s1 simultaneous_def min_def)
qed

text \<open>Destination before source: clear the source, then replace the destination.\<close>

lemma earlier_edit_last:
  assumes v: "validPos s bf" "validPos s bt"
      and i: "indexFromPos s bf \<le> indexFromPos s bt" "indexFromPos s bt \<le> ia" "ia \<le> ja"
             "ja \<le> length s"
      and s1: "s1 = take ia s @ x @ drop ja s"
  shows "take (min (indexFromPos s1 bf) (indexFromPos s1 bt)) s1 @ t @
         drop (max (indexFromPos s1 bf) (indexFromPos s1 bt)) s1
       = simultaneous s (indexFromPos s bf, indexFromPos s bt, t) (ia, ja, x)"
  using later_edit_first[OF v i s1] .


lemma doc_dropOperation_literal:
  "ntype d = ''literal'' \<Longrightarrow>
   doc (cm (dropOperation E t src destination (Some d) this)) = doc (moveOntoLiteral t src d (cm this))"
  by (simp add: dropOperation_def handleChange_doc)

lemma doc_dropOperation_insert:
  "(case dn of Some d \<Rightarrow> ntype d \<noteq> ''literal'' | None \<Rightarrow> True) \<Longrightarrow>
   doc (cm (dropOperation E t src destination dn this)) =
   doc (moveToPosition (hookedText this t src destination dn) src destination (cm this))"
  by (cases dn) (simp_all add: dropOperation_def handleChange_doc insertDropped_def Let_def)

lemma two_edits:
  assumes a: "validPos (doc c) af" "validPos (doc c) at" "posLE af at"
      and b: "validPos (doc c) bf" "validPos (doc c) bt" "posLE bf bt"
  shows "posLE at bf \<Longrightarrow>
         doc (replaceRange [] af (Some at) (replaceRange t bf (Some bt) c)) =
         simultaneous (doc c) (indexFromPos (doc c) af, indexFromPos (doc c) at, [])
           (indexFromPos (doc c) bf, indexFromPos (doc c) bt, t)"
    and "posLE bt af \<Longrightarrow>
         doc (replaceRange t bf (Some bt) (replaceRange [] af (Some at) c)) =
         simultaneous (doc c) (indexFromPos (doc c) bf, indexFromPos (doc c) bt, t)
           (indexFromPos (doc c) af, indexFromPos (doc c) at, [])"
proof -
  let ?s = "doc c"
  have ia: "indexFromPos ?s af \<le> indexFromPos ?s at" using a by (simp add: indexFromPos_mono)
  have ib: "indexFromPos ?s bf \<le> indexFromPos ?s bt" using b by (simp add: indexFromPos_mono)
  {
    assume "posLE at bf"
    then have m: "indexFromPos ?s at \<le> indexFromPos ?s bf" using a b by (simp add: indexFromPos_mono)
    have s1: "doc (replaceRange t bf (Some bt) c) = take (indexFromPos ?s bf) ?s @ t @ drop (indexFromPos ?s bt) ?s"
      using ib by (simp add: doc_replaceRange min_def max_def)
    show "doc (replaceRange [] af (Some at) (replaceRange t bf (Some bt) c)) =
         simultaneous (doc c) (indexFromPos (doc c) af, indexFromPos (doc c) at, [])
           (indexFromPos (doc c) bf, indexFromPos (doc c) bt, t)"
      unfolding doc_replaceRange[of "[]"]
      by (rule later_edit_first[OF a(1,2) ia m ib indexFromPos_le s1])
  }
  {
    assume "posLE bt af"
    then have m: "indexFromPos ?s bt \<le> indexFromPos ?s af" using a b by (simp add: indexFromPos_mono)
    have s1: "doc (replaceRange [] af (Some at) c) = take (indexFromPos ?s af) ?s @ [] @ drop (indexFromPos ?s at) ?s"
      using ia by (simp add: doc_replaceRange min_def max_def)
    show "doc (replaceRange t bf (Some bt) (replaceRange [] af (Some at) c)) =
         simultaneous (doc c) (indexFromPos (doc c) bf, indexFromPos (doc c) bt, t)
           (indexFromPos (doc c) af, indexFromPos (doc c) at, [])"
      unfolding doc_replaceRange[of t]
      by (rule later_edit_first[OF b(1,2) ib m ia indexFromPos_le s1])
  }
qed

lemma insert_as_replace: "doc (replaceRange t p None c) = doc (replaceRange t p (Some p) c)"
  by (simp add: replaceRange_def Let_def)

lemma insert_after_as_replace:
  "doc (replaceRange t p None (replaceRange x a b c)) = doc (replaceRange t p (Some p) (replaceRange x a b c))"
  by (simp add: replaceRange_def Let_def)

lemma doc_replaceRange_cong:
  "doc c = doc c' \<Longrightarrow> doc (replaceRange x a b c) = doc (replaceRange x a b c')"
  by (cases b) (simp_all add: replaceRange_def Let_def)

lemma clear_after_insert:
  "doc (replaceRange x a b (replaceRange t p None c)) = doc (replaceRange x a b (replaceRange t p (Some p) c))"
  by (rule doc_replaceRange_cong) (rule insert_as_replace)

text \<open>Clearing an empty range changes no text.\<close>

lemma clear_empty:
  "indexFromPos (doc c) af = indexFromPos (doc c) at \<Longrightarrow> doc (replaceRange [] af (Some at) c) = doc c"
  by (simp add: replaceRange_def Let_def)

lemma doc_moveOntoLiteral:
  assumes a: "validPos (doc c) (nfrom src)" "validPos (doc c) (nto src)" "posLE (nfrom src) (nto src)"
      and b: "validPos (doc c) (nfrom d)" "validPos (doc c) (nto d)" "posLE (nfrom d) (nto d)"
      and o: "posLE (nto src) (nfrom d) \<or> posLE (nto d) (nfrom src)"
  shows "doc (moveOntoLiteral t src d c) =
     (if posLE (nto src) (nfrom d)
      then simultaneous (doc c) (indexFromPos (doc c) (nfrom src), indexFromPos (doc c) (nto src), [])
             (indexFromPos (doc c) (nfrom d), indexFromPos (doc c) (nto d), t)
      else simultaneous (doc c) (indexFromPos (doc c) (nfrom d), indexFromPos (doc c) (nto d), t)
             (indexFromPos (doc c) (nfrom src), indexFromPos (doc c) (nto src), []))"
proof -
  let ?s = "doc c"
  let ?af = "nfrom src" and ?at = "nto src" and ?bf = "nfrom d" and ?bt = "nto d"
  have ia: "indexFromPos ?s ?af \<le> indexFromPos ?s ?at" using a by (simp add: indexFromPos_mono)
  have ib: "indexFromPos ?s ?bf \<le> indexFromPos ?s ?bt" using b by (simp add: indexFromPos_mono)
  show ?thesis
  proof (cases "posLE ?at ?bf")
    case True
    then have m: "indexFromPos ?s ?at \<le> indexFromPos ?s ?bf" using a b by (simp add: indexFromPos_mono)
    show ?thesis
    proof (cases "indexFromPos ?s ?af < indexFromPos ?s ?bf")
      case lt: True
      then show ?thesis using True two_edits(1)[OF a b True] by (simp add: moveOntoLiteral_def)
    next
      case False
      with ia m have e: "indexFromPos ?s ?af = indexFromPos ?s ?at" "indexFromPos ?s ?at = indexFromPos ?s ?bf"
        by simp_all
      have "doc (moveOntoLiteral t src d c) = take (indexFromPos ?s ?bf) ?s @ t @ drop (indexFromPos ?s ?bt) ?s"
        using False ib e by (simp add: moveOntoLiteral_def doc_replaceRange clear_empty min_def max_def)
      then show ?thesis using True e by (simp add: simultaneous_def)
    qed
  next
    case False
    with o have bA: "posLE ?bt ?af" by simp
    then have m: "indexFromPos ?s ?bt \<le> indexFromPos ?s ?af" using a b by (simp add: indexFromPos_mono)
    with ib have "\<not> indexFromPos ?s ?af < indexFromPos ?s ?bf" by simp
    then show ?thesis using False two_edits(2)[OF a b bA] by (simp add: moveOntoLiteral_def)
  qed
qed


lemma posLE_refl: "posLE p p"
  by (simp add: posLE_def)

lemma moveToPosition_as_literal:
  "doc (moveToPosition t src p c) = doc (moveOntoLiteral t src (d\<lparr>nfrom := p, nto := p\<rparr>) c)"
  by (simp add: moveToPosition_def moveOntoLiteral_def insert_after_as_replace clear_after_insert)

lemma doc_moveToPosition:
  assumes a: "validPos (doc c) (nfrom src)" "validPos (doc c) (nto src)" "posLE (nfrom src) (nto src)"
      and b: "validPos (doc c) p"
      and o: "posLE (nto src) p \<or> posLE p (nfrom src)"
  shows "doc (moveToPosition t src p c) =
     (if posLE (nto src) p
      then simultaneous (doc c) (indexFromPos (doc c) (nfrom src), indexFromPos (doc c) (nto src), [])
             (indexFromPos (doc c) p, indexFromPos (doc c) p, t)
      else simultaneous (doc c) (indexFromPos (doc c) p, indexFromPos (doc c) p, t)
             (indexFromPos (doc c) (nfrom src), indexFromPos (doc c) (nto src), []))"
  using doc_moveOntoLiteral[of c src "src\<lparr>nfrom := p, nto := p\<rparr>" t] a b o
  by (simp add: moveToPosition_as_literal[of t src p c src] posLE_refl)

lemma calls_dropOperation_literal:
  "ntype d = ''literal'' \<Longrightarrow>
   calls (cm (dropOperation E t src destination (Some d) this)) =
   calls (cm this) @
     (if indexFromPos (doc (cm this)) (nfrom src) < indexFromPos (doc (cm this)) (nfrom d)
      then [ReplaceRange t (nfrom d) (Some (nto d)), ReplaceRange [] (nfrom src) (Some (nto src))]
      else [ReplaceRange [] (nfrom src) (Some (nto src)), ReplaceRange t (nfrom d) (Some (nto d))])"
  by (simp add: dropOperation_def handleChange_calls moveOntoLiteral_def calls_replaceRange)

lemma calls_dropOperation_insert:
  "(case dn of Some d \<Rightarrow> ntype d \<noteq> ''literal'' | None \<Rightarrow> True) \<Longrightarrow>
   calls (cm (dropOperation E t src p dn this)) =
   calls (cm this) @
     (if indexFromPos (doc (cm this)) (nfrom src) < indexFromPos (doc (cm this)) p
      then [ReplaceRange (hookedText this t src p dn) p None, ReplaceRange [] (nfrom src) (Some (nto src))]
      else [ReplaceRange [] (nfrom src) (Some (nto src)), ReplaceRange (hookedText this t src p dn) p None])"
  by (cases dn)
     (simp_all add: dropOperation_def handleChange_calls insertDropped_def Let_def
        moveToPosition_def calls_replaceRange)

text \<open>
  Claim C1 (offset safety of drag-and-drop relocation). Let the source node's range A and
  the destination range B (or insertion point, with \<open>bt = bf\<close>) be ranges of the buffer:
  their ends are positions of the text, each range is ordered, and the two are disjoint, one
  lying entirely before the other. Then
  \<^item> when A lies before B, replacing B by the text and then clearing A gives the text that
    both edits give against the original offsets;
  \<^item> when B lies before A, clearing A and then replacing B gives that text;
  \<^item> the operation of \<open>dropOntoNode\<close> ends with that text in both of its branches (a
    literal destination node, whose range is replaced, and an insertion at the destination,
    of the text the \<open>willInsertNode\<close> hook answers), and it issues exactly two mutations:
    the replacement first when the source starts before the destination, the clearing
    first otherwise.
\<close>

theorem drop_offset_safety:
  assumes a: "validPos (doc (cm this)) (nfrom src)" "validPos (doc (cm this)) (nto src)"
             "posLE (nfrom src) (nto src)"
      and b: "validPos (doc (cm this)) bf" "validPos (doc (cm this)) bt" "posLE bf bt"
      and o: "posLE (nto src) bf \<or> posLE bt (nfrom src)"
  shows
    "(posLE (nto src) bf \<longrightarrow>
        doc (replaceRange [] (nfrom src) (Some (nto src)) (replaceRange t bf (Some bt) (cm this))) =
        simultaneous (doc (cm this)) (clearing (doc (cm this)) src) (replacing (doc (cm this)) bf bt t))
   \<and> (posLE bt (nfrom src) \<longrightarrow>
        doc (replaceRange t bf (Some bt) (replaceRange [] (nfrom src) (Some (nto src)) (cm this))) =
        simultaneous (doc (cm this)) (replacing (doc (cm this)) bf bt t) (clearing (doc (cm this)) src))
   \<and> (ntype d = ''literal'' \<and> nfrom d = bf \<and> nto d = bt \<longrightarrow>
        doc (cm (dropOperation E t src destination (Some d) this)) =
        (if posLE (nto src) bf
         then simultaneous (doc (cm this)) (clearing (doc (cm this)) src) (replacing (doc (cm this)) bf bt t)
         else simultaneous (doc (cm this)) (replacing (doc (cm this)) bf bt t) (clearing (doc (cm this)) src))
      \<and> calls (cm (dropOperation E t src destination (Some d) this)) =
        calls (cm this) @
          (if indexFromPos (doc (cm this)) (nfrom src) < indexFromPos (doc (cm this)) bf
           then [ReplaceRange t bf (Some bt), ReplaceRange [] (nfrom src) (Some (nto src))]
           else [ReplaceRange [] (nfrom src) (Some (nto src)), ReplaceRange t bf (Some bt)]))
   \<and> ((case dn of Some d' \<Rightarrow> ntype d' \<noteq> ''literal'' | None \<Rightarrow> True) \<and> bt = bf \<longrightarrow>
        doc (cm (dropOperation E t src bf dn this)) =
        (if posLE (nto src) bf
         then simultaneous (doc (cm this)) (clearing (doc (cm this)) src)
                (replacing (doc (cm this)) bf bf (hookedText this t src bf dn))
         else simultaneous (doc (cm this))
                (replacing (doc (cm this)) bf bf (hookedText this t src bf dn))
                (clearing (doc (cm this)) src))
      \<and> calls (cm (dropOperation E t src bf dn this)) =
        calls (cm this) @
          (if indexFromPos (doc (cm this)) (nfrom src) < indexFromPos (doc (cm this)) bf
           then [ReplaceRange (hookedText this t src bf dn) bf None,
                 ReplaceRange [] (nfrom src) (Some (nto src))]
           else [ReplaceRange [] (nfrom src) (Some (nto src)),
                 ReplaceRange (hookedText this t src bf dn) bf None]))"
proof -
  have 1: "posLE (nto src) bf \<longrightarrow>
        doc (replaceRange [] (nfrom src) (Some (nto src)) (replaceRange t bf (Some bt) (cm this))) =
        simultaneous (doc (cm this)) (clearing (doc (cm this)) src) (replacing (doc (cm this)) bf bt t)"
    using two_edits(1)[OF a b] by (simp add: clearing_def replacing_def)
  have 2: "posLE bt (nfrom src) \<longrightarrow>
        doc (replaceRange t bf (Some bt) (replaceRange [] (nfrom src) (Some (nto src)) (cm this))) =
        simultaneous (doc (cm this)) (replacing (doc (cm this)) bf bt t) (clearing (doc (cm this)) src)"
    using two_edits(2)[OF a b] by (simp add: clearing_def replacing_def)
  have 3: "doc (cm (dropOperation E t src destination (Some d) this)) =
        (if posLE (nto src) bf
         then simultaneous (doc (cm this)) (clearing (doc (cm this)) src) (replacing (doc (cm this)) bf bt t)
         else simultaneous (doc (cm this)) (replacing (doc (cm this)) bf bt t) (clearing (doc (cm this)) src))"
    if d: "ntype d = ''literal'' \<and> nfrom d = bf \<and> nto d = bt"
    using doc_moveOntoLiteral[of "cm this" src d t] a b o d
    by (simp add: doc_dropOperation_literal clearing_def replacing_def)
  have 4: "calls (cm (dropOperation E t src destination (Some d) this)) =
        calls (cm this) @
          (if indexFromPos (doc (cm this)) (nfrom src) < indexFromPos (doc (cm this)) bf
           then [ReplaceRange t bf (Some bt), ReplaceRange [] (nfrom src) (Some (nto src))]
           else [ReplaceRange [] (nfrom src) (Some (nto src)), ReplaceRange t bf (Some bt)])"
    if d: "ntype d = ''literal'' \<and> nfrom d = bf \<and> nto d = bt"
    using calls_dropOperation_literal[of d E t src destination this] d by simp
  have 5: "doc (cm (dropOperation E t src bf dn this)) =
        (if posLE (nto src) bf
         then simultaneous (doc (cm this)) (clearing (doc (cm this)) src)
                (replacing (doc (cm this)) bf bf (hookedText this t src bf dn))
         else simultaneous (doc (cm this))
                (replacing (doc (cm this)) bf bf (hookedText this t src bf dn))
                (clearing (doc (cm this)) src))"
    if n: "(case dn of Some d' \<Rightarrow> ntype d' \<noteq> ''literal'' | None \<Rightarrow> True) \<and> bt = bf"
  proof -
    from n o have o': "posLE (nto src) bf \<or> posLE bf (nfrom src)" by simp
    show ?thesis
      using doc_moveToPosition[OF a b(1) o', of "hookedText this t src bf dn"] n
      by (simp add: doc_dropOperation_insert clearing_def replacing_def)
  qed
  have 6: "calls (cm (dropOperation E t src bf dn this)) =
        calls (cm this) @
          (if indexFromPos (doc (cm this)) (nfrom src) < indexFromPos (doc (cm this)) bf
           then [ReplaceRange (hookedText this t src bf dn) bf None,
                 ReplaceRange [] (nfrom src) (Some (nto src))]
           else [ReplaceRange [] (nfrom src) (Some (nto src)),
                 ReplaceRange (hookedText this t src bf dn) bf None])"
    if n: "(case dn of Some d' \<Rightarrow> ntype d' \<noteq> ''literal'' | None \<Rightarrow> True) \<and> bt = bf"
    using calls_dropOperation_insert[of dn E t src bf this] n by simp
  from 1 2 3 4 5 6 show ?thesis by blast
qed

theorem drop_offset_safety_witness:
  "doc (cm (dropOperation sampleEnv ''a'' nodeA \<lparr>line = 0, ch = 5\<rparr>
             (Some nodeC) bufferABC)) = '' bb a''
   \<and> doc (cm (dropOperation sampleEnv ''c'' nodeC \<lparr>line = 0, ch = 1\<rparr>
             None bufferABC)) = ''ac bb ''"
proof -
  have d: "doc (cm bufferABC) = ''a bb c''"
    by (simp add: bufferABC_def constructor_def newEditor_def)
  have w: "willInsertNode bufferABC = None"
    by (simp add: bufferABC_def constructor_def)
  have v: "validPos ''a bb c'' \<lparr>line = 0, ch = 0\<rparr>" "validPos ''a bb c'' \<lparr>line = 0, ch = 1\<rparr>"
          "validPos ''a bb c'' \<lparr>line = 0, ch = 5\<rparr>" "validPos ''a bb c'' \<lparr>line = 0, ch = 6\<rparr>"
    by (simp_all add: validPos_def newline_def eval_nat_numeral)
  have i: "indexFromPos ''a bb c'' \<lparr>line = 0, ch = 0\<rparr> = 0" "indexFromPos ''a bb c'' \<lparr>line = 0, ch = 1\<rparr> = 1"
          "indexFromPos ''a bb c'' \<lparr>line = 0, ch = 5\<rparr> = 5" "indexFromPos ''a bb c'' \<lparr>line = 0, ch = 6\<rparr> = 6"
    by (simp_all add: indexFromPos_def newline_def eval_nat_numeral)
  have 1: "doc (cm (dropOperation sampleEnv ''a'' nodeA \<lparr>line = 0, ch = 5\<rparr>
             (Some nodeC) bufferABC)) = '' bb a''"
    using drop_offset_safety[where this = bufferABC and src = nodeA
        and bf = "\<lparr>line = 0, ch = 5\<rparr>" and bt = "\<lparr>line = 0, ch = 6\<rparr>"
        and d = nodeC and t = "''a''" and dn = None and E = sampleEnv
        and destination = "\<lparr>line = 0, ch = 5\<rparr>"] v i
    by (simp add: d nodeA_def nodeC_def literalNode_def posLE_def simultaneous_def clearing_def replacing_def)
  have 2: "doc (cm (dropOperation sampleEnv ''c'' nodeC \<lparr>line = 0, ch = 1\<rparr>
             None bufferABC)) = ''ac bb ''"
    using drop_offset_safety[where this = bufferABC and src = nodeC
        and bf = "\<lparr>line = 0, ch = 1\<rparr>" and bt = "\<lparr>line = 0, ch = 1\<rparr>"
        and d = nodeC and t = "''c''" and dn = None and E = sampleEnv
        and destination = "\<lparr>line = 0, ch = 1\<rparr>"] v i
    by (simp add: d w nodeC_def literalNode_def posLE_def simultaneous_def clearing_def replacing_def hookedText_def)
  from 1 2 show ?thesis by simp
qed

section \<open>Facts about the concrete states\<close>

lemma treeABC_ast: "ast treeABC = Some (treeOf [nodeA, nodeB, nodeC])"
  by (simp add: treeABC_def)

lemma treeABC_cm: "cm treeABC = newEditor ''a bb c''"
  by (simp add: treeABC_def bufferABC_def constructor_def)

lemma treeABC_nodeMap:
  "nodeMap (treeOf [nodeA, nodeB, nodeC]) ''1'' = Some nodeA"
  "nodeMap (treeOf [nodeA, nodeB, nodeC]) ''2'' = Some nodeB"
  "nodeMap (treeOf [nodeA, nodeB, nodeC]) ''3'' = Some nodeC"
  "nodeMap (treeOf [nodeA, nodeB, nodeC]) ''99'' = None"
  by (simp_all add: treeOf_def nodeA_def nodeB_def nodeC_def literalNode_def blankNode_def)

lemma props_onElem: "props (onElem f x) = f (props x)"
  by (cases x) simp

lemma getText_edited: "getText (edited n t) = t"
  by (simp add: edited_def getText_def props_onElem)

section \<open>Properties of the decorations\<close>

lemma checkOptions_unsupported:
  "\<exists>k\<in>fst ` set options. k \<notin> set supportedOptions \<Longrightarrow>
   \<exists>k. k \<in> fst ` set options \<and> k \<notin> set supportedOptions \<and>
       checkOptions options = Some (Error (''option \"'' @ k @ ''\" is not supported by markText''))"
proof (induction options)
  case Nil
  then show ?case by simp
next
  case (Cons kv kvs)
  obtain k v where kv: "kv = (k, v)" by (cases kv)
  show ?case
  proof (cases "k \<in> set supportedOptions")
    case True
    with Cons.prems kv have "\<exists>k\<in>fst ` set kvs. k \<notin> set supportedOptions" by auto
    from Cons.IH[OF this] obtain k' where "k' \<in> fst ` set kvs" "k' \<notin> set supportedOptions"
      "checkOptions kvs = Some (Error (''option \"'' @ k' @ ''\" is not supported by markText''))"
      by blast
    then show ?thesis using True kv by auto
  next
    case False
    then show ?thesis using kv by auto
  qed
qed

text \<open>With supported keys only, the check of the options lets the call through.\<close>

lemma checkOptions_supported:
  "\<forall>k\<in>fst ` set options. k \<in> set supportedOptions \<Longrightarrow> checkOptions options = None"
  by (induction options) auto

text \<open>
  Claim C9. For every call of \<open>markText\<close> whose options hold a key outside of
  \<open>css\<close>, \<open>className\<close> and \<open>title\<close>, the call throws an error that names an
  unsupported key of the options, and the state at the throw is the state before the
  call: no decoration was made and no key was passed over in silence.
\<close>

theorem markText_unsupported_option_raises:
  assumes "k \<in> fst ` set options" and "k \<notin> set [''css'', ''className'', ''title'']"
  shows "\<exists>k'. k' \<in> fst ` set options \<and> k' \<notin> set [''css'', ''className'', ''title''] \<and>
           markText from to options this =
             Inl (Error (''option \"'' @ k' @ ''\" is not supported by markText''), this)"
proof -
  from assms have "\<exists>k\<in>fst ` set options. k \<notin> set supportedOptions"
    by (auto simp: supportedOptions_def)
  from checkOptions_unsupported[OF this] show ?thesis
    by (auto simp: markText_def supportedOptions_def)
qed

theorem markText_unsupported_option_raises_witness:
  "markText origin origin [(''css'', ''color: red''), (''readOnly'', ''true'')] bufferABC =
     Inl (Error ''option \"readOnly\" is not supported by markText'', bufferABC)"
proof -
  have "''readOnly'' \<in> fst ` set [(''css'', ''color: red''), (''readOnly'', ''true'')]" by simp
  moreover have "''readOnly'' \<notin> set [''css'', ''className'', ''title'']" by simp
  ultimately obtain k' where
    "k' \<in> fst ` set [(''css'', ''color: red''), (''readOnly'', ''true'')]"
    "k' \<notin> set [''css'', ''className'', ''title'']"
    "markText origin origin [(''css'', ''color: red''), (''readOnly'', ''true'')] bufferABC =
       Inl (Error (''option \"'' @ k' @ ''\" is not supported by markText''), bufferABC)"
    using markText_unsupported_option_raises[of "''readOnly''" _ origin origin bufferABC] by blast
  then show ?thesis by auto
qed

section \<open>Properties of the node event dispatcher\<close>

lemma nodeEventHandler_blank_dragstart:
  assumes "etype e = ''dragstart''" and "contains (target e) ''blocks-blank''"
  shows "nodeEventHandler (Inl StartDraggingNode) callWithNullNode e this =
           (case findNodeFromEl this (target e) of
              Inl err \<Rightarrow> Inl err
            | Inr found \<Rightarrow>
                if found \<noteq> None \<or> callWithNullNode then Inr (ReturnFalse, stopPropagation e)
                else Inr (NoCall, e))"
  using assms by (simp add: nodeEventHandler_def Let_def split: sum.splits)

text \<open>
  Claim C10. For every \<open>dragstart\<close> event whose target element carries the class
  \<open>blocks-blank\<close>, the dispatcher that the constructor installs for \<open>dragstart\<close> ends
  before it calls \<open>startDraggingNode\<close>: when the target belongs to a node, the event's
  propagation is stopped and the answer is \<open>false\<close>; in no case does a drag start, and
  the event's drag payload and allowed effect are as they were.
\<close>

theorem blank_dragstart_suppressed:
  assumes "etype e = ''dragstart''" and "contains (target e) ''blocks-blank''"
  shows "ondragstart e this =
           (case findNodeFromEl this (target e) of
              Inl err \<Rightarrow> Inl err
            | Inr None \<Rightarrow> Inr (e, None)
            | Inr (Some n) \<Rightarrow> Inr (stopPropagation e, None))
       \<and> (\<forall>callWithNullNode d e'.
             nodeEventHandler (Inl StartDraggingNode) callWithNullNode e this = Inr (d, e') \<longrightarrow>
             (d = NoCall \<or> d = ReturnFalse) \<and> dataTransfer e' = dataTransfer e \<and>
             effectAllowed e' = effectAllowed e)"
proof -
  note h = nodeEventHandler_blank_dragstart[OF assms]
  have 1: "ondragstart e this =
           (case findNodeFromEl this (target e) of
              Inl err \<Rightarrow> Inl err
            | Inr None \<Rightarrow> Inr (e, None)
            | Inr (Some n) \<Rightarrow> Inr (stopPropagation e, None))"
    by (simp add: ondragstart_def h split: sum.splits option.splits)
  have 2: "(d = NoCall \<or> d = ReturnFalse) \<and> dataTransfer e' = dataTransfer e \<and>
           effectAllowed e' = effectAllowed e"
    if "nodeEventHandler (Inl StartDraggingNode) callWithNullNode e this = Inr (d, e')"
    for callWithNullNode d e'
    using that by (auto simp: h stopPropagation_def split: sum.splits if_splits)
  from 1 2 show ?thesis by blast
qed

lemma element_of_node:
  "findNearestNodeEl (el nodeA) = Some (el nodeA)" "matchBlockNode (el_id (props (el nodeA))) = Some ''1''"
  "findNearestNodeEl (el nodeB) = Some (el nodeB)" "matchBlockNode (el_id (props (el nodeB))) = Some ''2''"
  "findNearestNodeEl (el nodeC) = Some (el nodeC)" "matchBlockNode (el_id (props (el nodeC))) = Some ''3''"
  by (simp_all add: nodeA_def nodeB_def nodeC_def literalNode_def blankNode_def nodeElement_def
        body_def newline_def)

lemma findNodeFromEl_nodeB: "findNodeFromEl treeABC (el nodeB) = Inr (Some nodeB)"
  by (simp add: findNodeFromEl_def element_of_node treeABC_ast treeABC_nodeMap)

theorem blank_dragstart_suppressed_witness:
  "ondragstart (eventOn ''dragstart'' (el nodeB)) treeABC =
     Inr (stopPropagation (eventOn ''dragstart'' (el nodeB)), None)"
proof -
  have 1: "etype (eventOn ''dragstart'' (el nodeB)) = ''dragstart''"
    by (simp add: eventOn_def)
  have 2: "contains (target (eventOn ''dragstart'' (el nodeB))) ''blocks-blank''"
    by (simp add: eventOn_def contains_def nodeB_def blankNode_def nodeElement_def)
  have 3: "target (eventOn ''dragstart'' (el nodeB)) = el nodeB"
    by (simp add: eventOn_def)
  from blank_dragstart_suppressed[OF 1 2, of treeABC] show ?thesis
    by (simp add: 3 findNodeFromEl_nodeB)
qed

text \<open>For contrast: the drag of a literal node starts and carries the node's text and id.\<close>

lemma findNodeFromEl_nodeA: "findNodeFromEl treeABC (el nodeA) = Inr (Some nodeA)"
  by (simp add: findNodeFromEl_def element_of_node treeABC_ast treeABC_nodeMap)

lemma literal_dragstart_starts:
  "ondragstart (eventOn ''dragstart'' (el nodeA)) treeABC =
     Inr ((stopPropagation (eventOn ''dragstart'' (el nodeA)))
            \<lparr>effectAllowed := ''move'', dataTransfer := [(''text/id'', ''1''), (''text/plain'', ''a'')]\<rparr>,
          Some (nodeA\<lparr>el := addClass ''blocks-dragging'' (el nodeA)\<rparr>))"
proof -
  have t: "target (eventOn ''dragstart'' (el nodeA)) = el nodeA"
          "etype (eventOn ''dragstart'' (el nodeA)) = ''dragstart''"
          "dataTransfer (eventOn ''dragstart'' (el nodeA)) = []"
    by (simp_all add: eventOn_def)
  have c: "\<not> contains (el nodeA) ''blocks-white-space''" "\<not> contains (el nodeA) ''blocks-blank''"
    by (simp_all add: contains_def nodeA_def literalNode_def nodeElement_def plainElem_def)
  have h: "nodeEventHandler (Inl StartDraggingNode) False (eventOn ''dragstart'' (el nodeA)) treeABC =
           Inr (CallHandler StartDraggingNode (Some nodeA), eventOn ''dragstart'' (el nodeA))"
    by (simp add: nodeEventHandler_def Let_def t c findNodeFromEl_nodeA)
  have r: "getRange (cm treeABC) (nfrom nodeA) (nto nodeA) = ''a''" "nid nodeA = ''1''"
    by (simp_all add: treeABC_cm newEditor_def getRange_def indexFromPos_def nodeA_def
          literalNode_def newline_def)
  show ?thesis
    by (simp add: ondragstart_def h startDraggingNode_def r setData_def stopPropagation_def t)
qed

section \<open>Properties of a drop\<close>

lemma findNodeFromEl_parsed: "ast this = Some a \<Longrightarrow> \<exists>r. findNodeFromEl this x = Inr r"
  by (simp add: findNodeFromEl_def split: option.splits)

lemma isDropTarget_parsed: "ast this = Some a \<Longrightarrow> \<exists>b. isDropTarget this x = Inr b"
  using findNodeFromEl_parsed[of this a x]
  by (auto simp: isDropTarget_def split: option.splits)

lemma getLocationFromEl_removeClass: "getLocationFromEl (removeClass c x) = getLocationFromEl x"
  by (cases x) (simp add: getLocationFromEl_def removeClass_def)

text \<open>What \<open>dropOntoNode\<close> does to the event before it looks for the source node.\<close>

lemma dropDestination_prepared:
  "dropDestination E ((stopPropagation (preventDefault e))\<lparr>target := removeClass c (target e)\<rparr>) =
   dropDestination E e"
  by (simp add: dropDestination_def getLocationFromEl_removeClass stopPropagation_def
        preventDefault_def split: option.splits)

lemma dataTransfer_prepared:
  "dataTransfer ((stopPropagation (preventDefault e))\<lparr>target := x\<rparr>) = dataTransfer e"
  by (simp add: stopPropagation_def preventDefault_def)

text \<open>What \<open>dropOntoNode\<close> does once the target is accepted and the source node is found.\<close>

lemma dropOntoNode_resolved:
  assumes "isDropTarget this (target e) = Inr True"
      and "ast this = Some a"
      and "nodeMap a (getData (dataTransfer e) ''text/id'') = Some src"
      and "dropDestination E e = (p, out)"
  shows "dropOntoNode E dn e this =
     (let e1 = (stopPropagation (preventDefault e))\<lparr>target := removeClass ''blocks-over-target'' (target e)\<rparr>;
          this1 = (if getData (dataTransfer e) ''text/id'' = []
                   then this\<lparr>console := console this @
                          [''data transfer contains no node id. Not sure how to proceed.'']\<rparr>
                   else this);
          t = getRange (cm this) (nfrom src) (nto src)
      in if (line p = line (nto src) \<and> ch p = ch (nto src)) \<or>
            (line p = line (nfrom src) \<and> ch p = ch (nfrom src))
         then Inr (e1, this1)
         else Inr (e1, dropOperation E (if out then newline # t else t) src p dn this1))"
  using assms
  by (cases "getData (dataTransfer e) ''text/id'' = []")
     (simp_all add: dropOntoNode_def Let_def dropDestination_prepared dataTransfer_prepared)

text \<open>
  Claim C5. For every drop whose source node is found in the tree and whose destination
  (the position stored on the target element, or else the position under the pointer) is
  the source node's own start or its own end, \<open>dropOntoNode\<close> returns without an
  exception and the editor is as it was: its text is the same and no call was issued, in
  neither branch of the drop.
\<close>

theorem noop_drop_never_mutates:
  assumes t: "ast this = Some a"
      and s: "nodeMap a (getData (dataTransfer e) ''text/id'') = Some src"
      and d: "fst (dropDestination E e) = nfrom src \<or> fst (dropDestination E e) = nto src"
  shows "\<exists>e' this'. dropOntoNode E destinationNode e this = Inr (e', this') \<and> cm this' = cm this"
proof -
  obtain b where b: "isDropTarget this (target e) = Inr b"
    using isDropTarget_parsed[OF t] by blast
  show ?thesis
  proof (cases b)
    case False
    with b show ?thesis by (simp add: dropOntoNode_def)
  next
    case True
    obtain p out where p: "dropDestination E e = (p, out)" by (cases "dropDestination E e")
    with d have "p = nfrom src \<or> p = nto src" by simp
    then have q: "(line p = line (nto src) \<and> ch p = ch (nto src)) \<or>
                  (line p = line (nfrom src) \<and> ch p = ch (nfrom src))" by auto
    from b True have b': "isDropTarget this (target e) = Inr True" by simp
    show ?thesis
      using q by (simp add: dropOntoNode_resolved[OF b' t s p] Let_def)
  qed
qed

lemma dropOf_facts:
  "target (dropOf k t x) = x" "getData (dataTransfer (dropOf k t x)) ''text/id'' = k"
  by (simp_all add: dropOf_def eventOn_def getData_def)

lemma dropTarget_facts:
  "isDropTarget this (dropTarget c) = Inr True"
  "dropDestination E (dropOf k t (dropTarget c)) = (\<lparr>line = 0, ch = c\<rparr>, False)"
  by (simp_all add: isDropTarget_def contains_def dropTarget_def dropDestination_def
        getLocationFromEl_def dropOf_def eventOn_def plainElem_def)

theorem noop_drop_never_mutates_witness:
  "\<exists>e' this'. dropOntoNode sampleEnv None (dropOf ''1'' ''a'' (dropTarget 1)) treeABC = Inr (e', this')
     \<and> cm this' = newEditor ''a bb c''"
proof -
  have s: "nodeMap (treeOf [nodeA, nodeB, nodeC])
             (getData (dataTransfer (dropOf ''1'' ''a'' (dropTarget 1))) ''text/id'') = Some nodeA"
    by (simp add: dropOf_facts treeABC_nodeMap)
  have d: "fst (dropDestination sampleEnv (dropOf ''1'' ''a'' (dropTarget 1))) = nfrom nodeA
         \<or> fst (dropDestination sampleEnv (dropOf ''1'' ''a'' (dropTarget 1))) = nto nodeA"
    by (simp add: dropTarget_facts nodeA_def literalNode_def)
  from noop_drop_never_mutates[OF treeABC_ast s d, of None] show ?thesis
    by (simp add: treeABC_cm)
qed

text \<open>For contrast: the same drop three columns further moves the node.\<close>

lemma drop_elsewhere_mutates:
  "\<exists>e' this'. dropOntoNode sampleEnv None (dropOf ''1'' ''a'' (dropTarget 4)) treeABC = Inr (e', this')
     \<and> doc (cm this') = '' bba c''"
proof -
  have s: "nodeMap (treeOf [nodeA, nodeB, nodeC])
             (getData (dataTransfer (dropOf ''1'' ''a'' (dropTarget 4))) ''text/id'') = Some nodeA"
    by (simp add: dropOf_facts treeABC_nodeMap)
  have t: "isDropTarget treeABC (target (dropOf ''1'' ''a'' (dropTarget 4))) = Inr True"
    by (simp add: dropOf_facts dropTarget_facts)
  have n: "nfrom nodeA = \<lparr>line = 0, ch = 0\<rparr>" "nto nodeA = \<lparr>line = 0, ch = 1\<rparr>"
    by (simp_all add: nodeA_def literalNode_def)
  have g: "getRange (cm treeABC) \<lparr>line = 0, ch = 0\<rparr> \<lparr>line = 0, ch = Suc 0\<rparr> = ''a''"
    by (simp add: treeABC_cm newEditor_def getRange_def indexFromPos_def newline_def)
  have h: "hookedText treeABC ''a'' nodeA \<lparr>line = 0, ch = 4\<rparr> None = ''a''"
    by (simp add: hookedText_def treeABC_def bufferABC_def constructor_def)
  have m: "doc (moveToPosition ''a'' nodeA \<lparr>line = 0, ch = 4\<rparr> (newEditor ''a bb c'')) = '' bba c''"
    by (simp add: moveToPosition_def replaceRange_def newEditor_def n Let_def indexFromPos_def
          newline_def eval_nat_numeral)
  have "dropOntoNode sampleEnv None (dropOf ''1'' ''a'' (dropTarget 4)) treeABC =
          Inr ((stopPropagation (preventDefault (dropOf ''1'' ''a'' (dropTarget 4))))
                 \<lparr>target := removeClass ''blocks-over-target'' (target (dropOf ''1'' ''a'' (dropTarget 4)))\<rparr>,
               dropOperation sampleEnv ''a'' nodeA \<lparr>line = 0, ch = 4\<rparr> None treeABC)"
    by (simp add: dropOntoNode_resolved[OF t treeABC_ast s dropTarget_facts(2)] Let_def n g dropOf_facts)
  moreover have "doc (cm (dropOperation sampleEnv ''a'' nodeA \<lparr>line = 0, ch = 4\<rparr> None treeABC)) = '' bba c''"
    by (simp add: doc_dropOperation_insert h treeABC_cm m)
  ultimately show ?thesis by simp
qed

text \<open>
  A drop on a drop target whose node id is not in the tree: the failure is logged, and
  then reading \<open>sourceNode.from\<close> throws. The editor is as it was.
\<close>

lemma stale_drop_throws:
  assumes "isDropTarget this (target e) = Inr True"
      and "ast this = Some a"
      and "getData (dataTransfer e) ''text/id'' = k" and "k \<noteq> []"
      and "nodeMap a k = None"
  shows "dropOntoNode E destinationNode e this =
           Inl (TypeError,
                (stopPropagation (preventDefault e))\<lparr>target := removeClass ''blocks-over-target'' (target e)\<rparr>,
                this\<lparr>console := console this @ [''node '' @ k @ '' not found in AST'']\<rparr>)"
  using assms by (simp add: dropOntoNode_def Let_def dataTransfer_prepared)

text \<open>
  Claim C2, at a failing input. The tree holds the nodes \<open>1\<close>, \<open>2\<close> and \<open>3\<close>; a
  drop on a drop target carries the id \<open>99\<close> of a node of a discarded tree. The claim
  says that the drop is reported and ends as a no-op. The code reports it on the console and
  leaves the buffer alone, but then it goes on to read \<open>sourceNode.from\<close> of the missing
  node: \<open>dropOntoNode\<close> ends with a \<open>TypeError\<close>.
\<close>

theorem stale_drop_is_fatal:
  "dropOntoNode sampleEnv None (dropOf ''99'' ''zz'' (dropTarget 4)) treeABC =
     Inl (TypeError,
          (stopPropagation (preventDefault (dropOf ''99'' ''zz'' (dropTarget 4))))
            \<lparr>target := removeClass ''blocks-over-target'' (dropTarget 4)\<rparr>,
          treeABC\<lparr>console := [''node 99 not found in AST'']\<rparr>)"
proof -
  have 1: "isDropTarget treeABC (target (dropOf ''99'' ''zz'' (dropTarget 4))) = Inr True"
    by (simp add: dropOf_facts dropTarget_facts)
  have 5: "console treeABC = []"
    by (simp add: treeABC_def bufferABC_def constructor_def)
  from stale_drop_throws[OF 1 treeABC_ast dropOf_facts(2) _ treeABC_nodeMap(4), of sampleEnv None]
  show ?thesis by (simp add: 5 dropOf_facts)
qed

section \<open>Properties of an edit in place\<close>

lemma handleChange_bookmarks: "bookmarks (cm (handleChange E this)) = bookmarks (cm this)"
  by (simp add: handleChange_def renderAll_def clearMarks_def clearMarks_in_def Let_def)

lemma handleChange_hasInvalidEdit: "hasInvalidEdit (handleChange E this) = hasInvalidEdit this"
  by (simp add: handleChange_def renderAll_def clearMarks_def clearMarks_in_def Let_def)

lemma checkEditableEl_ok: "fst (checkEditableEl E x t this) = (lex E t = None)"
  by (simp add: checkEditableEl_def Let_def split: option.splits)

lemma checkEditableEl_cm: "cm (snd (snd (checkEditableEl E x t this))) = cm this"
  by (simp add: checkEditableEl_def Let_def split: option.splits)

lemma checkEditableEl_timers: "timers (snd (snd (checkEditableEl E x t this))) = timers this"
  by (simp add: checkEditableEl_def Let_def split: option.splits)

lemma checkEditableEl_hasInvalidEdit:
  "hasInvalidEdit (snd (snd (checkEditableEl E x t this))) = hasInvalidEdit this"
  by (simp add: checkEditableEl_def Let_def split: option.splits)

text \<open>The two outcomes of \<open>saveEdit\<close>.\<close>

lemma saveEdit_invalid:
  assumes "lex E (getText nodeEl) \<noteq> None"
  shows "saveEdit E n nodeEl e this =
           (preventDefault e, fst (snd (checkEditableEl E nodeEl (getText nodeEl) this)),
            (snd (snd (checkEditableEl E nodeEl (getText nodeEl) this)))
              \<lparr>timers := timers this @ [EditLiteralLater n (preventDefault e) 50],
               hasInvalidEdit := True\<rparr>)"
proof -
  obtain ok x this1 where c: "checkEditableEl E nodeEl (getText nodeEl) this = (ok, x, this1)"
    by (cases "checkEditableEl E nodeEl (getText nodeEl) this")
  from checkEditableEl_ok[of E nodeEl "getText nodeEl" this] c assms have "\<not> ok" by simp
  moreover from checkEditableEl_timers[of E nodeEl "getText nodeEl" this] c
  have "timers this1 = timers this" by simp
  ultimately show ?thesis by (simp add: saveEdit_def c Let_def)
qed

lemma saveEdit_valid:
  assumes "lex E (getText nodeEl) = None"
  shows "snd (snd (saveEdit E n nodeEl e this)) =
            (case quarantine n of
               None \<Rightarrow> editBuffer E (getText nodeEl) (nfrom n) (Some (nto n)) this
             | Some mk \<Rightarrow>
                 editBuffer E (getText nodeEl @ '' '') (nfrom n) (Some (nto n))
                   (this\<lparr>cm := bookmarkClear mk (cm this)\<rparr>))"
  using assms
  by (cases "quarantine n")
     (simp_all add: saveEdit_def checkEditableEl_def saveEditableEl_def Let_def getText_def
        props_onElem)

lemma editBuffer_doc:
  "doc (cm (editBuffer E t p q this)) = doc (replaceRange t p q (cm this))"
  by (simp add: editBuffer_def handleChange_doc)

lemma editBuffer_calls:
  "calls (cm (editBuffer E t p q this)) = calls (cm this) @ [ReplaceRange t p q]"
  by (simp add: editBuffer_def handleChange_calls calls_replaceRange)

lemma editBuffer_hasInvalidEdit: "hasInvalidEdit (editBuffer E t p q this) = hasInvalidEdit this"
  by (simp add: editBuffer_def handleChange_hasInvalidEdit)

lemma doc_bookmarkClear: "doc (bookmarkClear mk c) = doc c"
  by (simp add: bookmarkClear_def)

lemma inEditMode_editLiteral: "inEditMode (el (fst (editLiteral n e this)))"
  by (cases "el n") (simp add: editLiteral_def inEditMode_def addClass_def)

text \<open>
  Claim C3. Let \<open>saveEdit\<close> run at the blur of an element in edit mode. If the edited
  text fails the parser's \<open>lex\<close>, the editor is as it was (the same text, no call
  issued), and the callback that re-enters edit mode on the same node is queued; running
  it puts the node's element into edit mode. A \<open>replaceRange\<close> on the node's range is
  issued if and only if the edited text lexes, and then the text of the buffer is the one
  that this replacement gives.
\<close>

theorem saveEdit_mutates_iff_lexes:
  assumes r: "saveEdit E n nodeEl e this = (e', el', this')"
  shows "(lex E (getText nodeEl) \<noteq> None \<longrightarrow>
            cm this' = cm this \<and> timers this' = timers this @ [EditLiteralLater n e' 50] \<and>
            inEditMode (el (fst (editLiteral n e' this'))))
       \<and> ((\<exists>t. ReplaceRange t (nfrom n) (Some (nto n)) \<in> set (issued this this')) \<longleftrightarrow>
            lex E (getText nodeEl) = None)
       \<and> (lex E (getText nodeEl) = None \<longrightarrow>
            doc (cm this') =
            doc (replaceRange (committedText n nodeEl) (nfrom n) (Some (nto n)) (cm this)))"
proof (cases "lex E (getText nodeEl)")
  case (Some ex)
  then have "lex E (getText nodeEl) \<noteq> None" by simp
  from saveEdit_invalid[OF this, of n e this] r have
    t: "this' = (snd (snd (checkEditableEl E nodeEl (getText nodeEl) this)))
                  \<lparr>timers := timers this @ [EditLiteralLater n e' 50], hasInvalidEdit := True\<rparr>"
    by auto
  have "cm this' = cm this" "timers this' = timers this @ [EditLiteralLater n e' 50]"
    by (simp_all add: t checkEditableEl_cm)
  then show ?thesis using Some by (simp add: issued_def inEditMode_editLiteral)
next
  case None
  from saveEdit_valid[OF None, of n e this] r have
    t: "this' = (case quarantine n of
               None \<Rightarrow> editBuffer E (getText nodeEl) (nfrom n) (Some (nto n)) this
             | Some mk \<Rightarrow>
                 editBuffer E (getText nodeEl @ '' '') (nfrom n) (Some (nto n))
                   (this\<lparr>cm := bookmarkClear mk (cm this)\<rparr>))" by simp
  have i: "issued this this' =
           (case quarantine n of None \<Rightarrow> [] | Some mk \<Rightarrow> [BookmarkClear mk]) @
           [ReplaceRange (committedText n nodeEl) (nfrom n) (Some (nto n))]"
    by (cases "quarantine n")
       (simp_all add: t issued_def editBuffer_calls committedText_def bookmarkClear_def)
  have d: "doc (cm this') =
           doc (replaceRange (committedText n nodeEl) (nfrom n) (Some (nto n)) (cm this))"
    by (cases "quarantine n")
       (simp_all add: t editBuffer_doc committedText_def doc_replaceRange_cong[OF doc_bookmarkClear])
  have "\<exists>t. ReplaceRange t (nfrom n) (Some (nto n)) \<in> set (issued this this')"
    unfolding i by (intro exI[of _ "committedText n nodeEl"]) simp
  then show ?thesis using None d by simp
qed


theorem saveEdit_mutates_iff_lexes_witness:
  "cm (snd (snd (saveEdit sampleEnv nodeA
                   (edited nodeA ''('') (eventOn ''blur'' body) treeABC)))
     = newEditor ''a bb c''
   \<and> doc (cm (snd (snd (saveEdit sampleEnv nodeA
                   (edited nodeA ''z'') (eventOn ''blur'' body) treeABC))))
     = ''z bb c''"
proof -
  let ?n = nodeA
  let ?bad = "saveEdit sampleEnv ?n (edited ?n ''('') (eventOn ''blur'' body) treeABC"
  let ?good = "saveEdit sampleEnv ?n (edited ?n ''z'') (eventOn ''blur'' body) treeABC"
  have b: "lex sampleEnv (getText (edited ?n ''('')) \<noteq> None"
    by (simp add: getText_edited sampleEnv_def)
  have g: "lex sampleEnv (getText (edited ?n ''z'')) = None"
    by (simp add: getText_edited sampleEnv_def)
  have "?bad = (fst ?bad, fst (snd ?bad), snd (snd ?bad))" by simp
  from saveEdit_mutates_iff_lexes[OF this] b
  have 1: "cm (snd (snd ?bad)) = newEditor ''a bb c''" by (simp add: treeABC_cm)
  have "?good = (fst ?good, fst (snd ?good), snd (snd ?good))" by simp
  from saveEdit_mutates_iff_lexes[OF this] g
  have "doc (cm (snd (snd ?good))) =
        doc (replaceRange (committedText ?n (edited ?n ''z'')) (nfrom ?n) (Some (nto ?n)) (cm treeABC))"
    by simp
  then have 2: "doc (cm (snd (snd ?good))) = ''z bb c''"
    by (simp add: treeABC_cm committedText_def getText_edited nodeA_def literalNode_def replaceRange_def
          newEditor_def indexFromPos_def newline_def)
  from 1 2 show ?thesis by simp
qed

lemma saveEdit_quarantine:
  assumes q: "quarantine n = Some mk" and l: "lex E (getText nodeEl) = None"
  shows "issued this (snd (snd (saveEdit E n nodeEl e this))) =
           [BookmarkClear mk, ReplaceRange (getText nodeEl @ '' '') (nfrom n) (Some (nto n))]"
    and "doc (cm (snd (snd (saveEdit E n nodeEl e this)))) =
           doc (replaceRange (getText nodeEl @ '' '') (nfrom n) (Some (nto n)) (cm this))"
    and "bookmarks (cm (snd (snd (saveEdit E n nodeEl e this)))) =
           filter (\<lambda>b. fst b \<noteq> mk) (bookmarks (cm this))"
proof -
  show "issued this (snd (snd (saveEdit E n nodeEl e this))) =
           [BookmarkClear mk, ReplaceRange (getText nodeEl @ '' '') (nfrom n) (Some (nto n))]"
    by (simp add: saveEdit_valid[OF l] q issued_def editBuffer_calls bookmarkClear_def)
  show "doc (cm (snd (snd (saveEdit E n nodeEl e this)))) =
           doc (replaceRange (getText nodeEl @ '' '') (nfrom n) (Some (nto n)) (cm this))"
    by (simp add: saveEdit_valid[OF l] q editBuffer_doc doc_replaceRange_cong[OF doc_bookmarkClear])
  show "bookmarks (cm (snd (snd (saveEdit E n nodeEl e this)))) =
           filter (\<lambda>b. fst b \<noteq> mk) (bookmarks (cm this))"
    by (simp add: saveEdit_valid[OF l] q editBuffer_def handleChange_bookmarks replaceRange_def
          bookmarkClear_def Let_def)
qed

lemma insertionQuarantine_result:
  assumes "rootNodes (parse E (filler (cursor (cm this)) @ ''x'')) = n0 # rest"
  shows "insertionQuarantine E e this =
     (let mk = length (calls (cm this));
          n = n0\<lparr>el := onElem (\<lambda>d. d\<lparr>innerText := intercepted e\<rparr>) (el n0),
                 nto := (nto n0)\<lparr>ch := ch (nfrom n0)\<rparr>,
                 quarantine := Some mk\<rparr>
      in Inr (preventDefault e, n,
              this\<lparr>cm := (cm this)\<lparr>marks := marks (cm this) @ render E n0,
                                   bookmarks := bookmarks (cm this) @ [(mk, cursor (cm this))],
                                   calls := calls (cm this) @ [SetBookmark mk (cursor (cm this))]\<rparr>,
                    timers := timers this @ [EditLiteralLater n (preventDefault e) 50]\<rparr>))"
  using assms
  by (simp add: insertionQuarantine_def Let_def filler_def intercepted_def setBookmark_def
        preventDefault_def)


lemma editLiteral_keeps:
  "quarantine (fst (editLiteral n e this)) = quarantine n"
  "nfrom (fst (editLiteral n e this)) = nfrom n"
  "nto (fst (editLiteral n e this)) = nto n"
  "getText (el (fst (editLiteral n e this))) = getText (el n)"
  by (simp_all add: editLiteral_def getText_def props_onElem addClass_def)

text \<open>
  The commit of a quarantine whose sentinel node the parser has placed at the cursor.
\<close>

lemma commit_of_sentinel_at:
  assumes p: "rootNodes (parse E (filler (cursor (cm this)) @ ''x'')) = n0 # rest"
      and at: "nfrom n0 = cursor (cm this)" "line (nto n0) = line (cursor (cm this))"
      and q: "insertionQuarantine E e this = Inr (e1, n, this1)"
      and ed: "editLiteral n e1 this1 = (n', e2)"
      and l: "lex E (getText nodeEl) = None"
      and sv: "saveEdit E n' nodeEl e3 this1 = (e4, el4, this2)"
  shows "\<exists>mk. quarantine n' = Some mk
       \<and> getText (el n') = intercepted e
       \<and> doc (cm this1) = doc (cm this)
       \<and> issued this this2 =
           [SetBookmark mk (cursor (cm this)), BookmarkClear mk,
            ReplaceRange (getText nodeEl @ '' '') (cursor (cm this)) (Some (cursor (cm this)))]
       \<and> doc (cm this2) =
           take (indexFromPos (doc (cm this)) (cursor (cm this))) (doc (cm this)) @
           getText nodeEl @ '' '' @
           drop (indexFromPos (doc (cm this)) (cursor (cm this))) (doc (cm this))
       \<and> mk \<notin> fst ` set (bookmarks (cm this2))"
proof -
  let ?cur = "cursor (cm this)"
  let ?mk = "length (calls (cm this))"
  have to: "(nto n0)\<lparr>ch := ch (nfrom n0)\<rparr> = ?cur"
    using at by (cases "nto n0", cases "cursor (cm this)") simp
  from q have n: "n = n0\<lparr>el := onElem (\<lambda>d. d\<lparr>innerText := intercepted e\<rparr>) (el n0),
                         nto := ?cur, quarantine := Some ?mk\<rparr>"
    and t1: "this1 = this\<lparr>cm := (cm this)\<lparr>marks := marks (cm this) @ render E n0,
                                   bookmarks := bookmarks (cm this) @ [(?mk, ?cur)],
                                   calls := calls (cm this) @ [SetBookmark ?mk ?cur]\<rparr>,
                    timers := timers this @ [EditLiteralLater n (preventDefault e) 50]\<rparr>"
    by (auto simp: insertionQuarantine_result[OF p] Let_def to)
  from ed have n': "n' = fst (editLiteral n e1 this1)" by simp
  have qn: "quarantine n' = Some ?mk" and f: "nfrom n' = ?cur" and t: "nto n' = ?cur"
    and g: "getText (el n') = intercepted e"
    by (simp_all add: n' editLiteral_keeps) (simp_all add: n at getText_def props_onElem)
  from sv have t2: "this2 = snd (snd (saveEdit E n' nodeEl e3 this1))" by simp
  have d1: "doc (cm this1) = doc (cm this)" and c1: "calls (cm this1) = calls (cm this) @ [SetBookmark ?mk ?cur]"
    and b1: "bookmarks (cm this1) = bookmarks (cm this) @ [(?mk, ?cur)]"
    by (simp_all add: t1)
  have c2: "calls (cm this2) = calls (cm this1) @
            [BookmarkClear ?mk, ReplaceRange (getText nodeEl @ '' '') ?cur (Some ?cur)]"
    using saveEdit_valid[OF l, where n = n' and e = e3 and this = this1]
    by (simp add: t2 qn f t editBuffer_calls bookmarkClear_def)
  have i: "issued this this2 =
           [SetBookmark ?mk ?cur, BookmarkClear ?mk,
            ReplaceRange (getText nodeEl @ '' '') ?cur (Some ?cur)]"
    by (simp add: issued_def c2 c1)
  have d2: "doc (cm this2) =
           take (indexFromPos (doc (cm this)) ?cur) (doc (cm this)) @
           getText nodeEl @ '' '' @
           drop (indexFromPos (doc (cm this)) ?cur) (doc (cm this))"
    using saveEdit_quarantine(2)[OF qn l, where e = e3 and this = this1]
    by (simp add: t2 f t replaceRange_def Let_def d1)
  have b2: "?mk \<notin> fst ` set (bookmarks (cm this2))"
    using saveEdit_quarantine(3)[OF qn l, where e = e3 and this = this1] by (auto simp: t2)
  from qn g d1 i d2 b2 show ?thesis by blast
qed

text \<open>
  The filler puts the sentinel at the cursor: reading it leads from the origin to the
  cursor.
\<close>

lemma advance_append: "advance p (u @ v) = advance (advance p u) v"
  by (induction u arbitrary: p) simp_all

lemma advance_newlines:
  "advance p (replicate l newline) = (if l = 0 then p else \<lparr>line = line p + l, ch = 0\<rparr>)"
  by (induction l arbitrary: p) auto

lemma advance_spaces: "advance p (replicate c (CHR '' '')) = p\<lparr>ch := ch p + c\<rparr>"
  by (induction c arbitrary: p) (simp_all add: newline_def)

lemma advance_filler: "advance origin (filler cur) = cur"
  by (cases cur) (simp add: filler_def advance_append advance_newlines advance_spaces origin_def)

text \<open>
  Claim C7. Let the parser place the sentinel: for every line \<open>l\<close> and column \<open>c\<close>,
  the first node of the text made of \<open>l\<close> newlines, \<open>c\<close> spaces and the sentinel
  \<open>x\<close> starts at \<open>l:c\<close> and ends on line \<open>l\<close>. Let \<open>insertionQuarantine\<close> intercept
  an input, let the queued \<open>editLiteral\<close> run, and let the edit commit at the blur (the
  text of the element lexes). Then the node carries the bookmark of the quarantine and the
  intercepted text; the quarantine itself leaves the buffer's text alone; the calls issued
  are the setting of the bookmark at the cursor, its clearing, and after that one
  \<open>replaceRange\<close> at the cursor with the text of the element and exactly one space
  behind it; the buffer's text is the old one with that text put in at the cursor, so
  that the sentinel is not in it; and the bookmark is gone.
\<close>

theorem quarantine_commit:
  assumes c: "\<And>l c. \<exists>n0 rest.
                 rootNodes (parse E (replicate l newline @ replicate c (CHR '' '') @ ''x'')) = n0 # rest
                 \<and> nfrom n0 = \<lparr>line = l, ch = c\<rparr> \<and> line (nto n0) = l"
      and q: "insertionQuarantine E e this = Inr (e1, n, this1)"
      and ed: "editLiteral n e1 this1 = (n', e2)"
      and l: "lex E (getText nodeEl) = None"
      and sv: "saveEdit E n' nodeEl e3 this1 = (e4, el4, this2)"
  shows "\<exists>mk. quarantine n' = Some mk
       \<and> getText (el n') = intercepted e
       \<and> doc (cm this1) = doc (cm this)
       \<and> issued this this2 =
           [SetBookmark mk (cursor (cm this)), BookmarkClear mk,
            ReplaceRange (getText nodeEl @ '' '') (cursor (cm this)) (Some (cursor (cm this)))]
       \<and> doc (cm this2) =
           take (indexFromPos (doc (cm this)) (cursor (cm this))) (doc (cm this)) @
           getText nodeEl @ '' '' @
           drop (indexFromPos (doc (cm this)) (cursor (cm this))) (doc (cm this))
       \<and> mk \<notin> fst ` set (bookmarks (cm this2))"
proof -
  from c[of "line (cursor (cm this))" "ch (cursor (cm this))"] obtain n0 rest where
    p: "rootNodes (parse E (filler (cursor (cm this)) @ ''x'')) = n0 # rest"
    and at: "nfrom n0 = cursor (cm this)" "line (nto n0) = line (cursor (cm this))"
    by (auto simp: filler_def)
  from commit_of_sentinel_at[OF p at q ed l sv] show ?thesis .
qed

text \<open>The sample parser places the sentinel.\<close>

lemma sampleEnv_places_sentinel:
  "\<exists>n0 rest.
     rootNodes (parse sampleEnv (replicate l newline @ replicate c (CHR '' '') @ ''x'')) = n0 # rest
     \<and> nfrom n0 = \<lparr>line = l, ch = c\<rparr> \<and> line (nto n0) = l"
proof -
  have "advance origin (replicate l newline @ replicate c (CHR '' '')) = \<lparr>line = l, ch = c\<rparr>"
    using advance_filler[of "\<lparr>line = l, ch = c\<rparr>"] by (simp add: filler_def)
  then show ?thesis
    by (simp add: sampleEnv_def emptyTree_def lastCharNode_def Let_def)
qed

theorem quarantine_commit_witness:
  "doc (cm (afterQuarantine sampleEnv (pasteOf ''abc'') bufferEmpty)) = ''abc ''
   \<and> doc (cm (afterQuarantine sampleEnv (keypressOf 122) twoLines)) = ''ab'' @ newline # ''cz d''
   \<and> issued twoLines (afterQuarantine sampleEnv (keypressOf 122) twoLines) =
       [SetBookmark 0 \<lparr>line = 1, ch = 1\<rparr>, BookmarkClear 0,
        ReplaceRange ''z '' \<lparr>line = 1, ch = 1\<rparr> (Some \<lparr>line = 1, ch = 1\<rparr>)]"
proof -
  have W: "doc (cm (afterQuarantine sampleEnv e this)) =
             take (indexFromPos (doc (cm this)) (cursor (cm this))) (doc (cm this)) @
             intercepted e @ '' '' @
             drop (indexFromPos (doc (cm this)) (cursor (cm this))) (doc (cm this))
           \<and> issued this (afterQuarantine sampleEnv e this) =
             [SetBookmark (length (calls (cm this))) (cursor (cm this)),
              BookmarkClear (length (calls (cm this))),
              ReplaceRange (intercepted e @ '' '') (cursor (cm this)) (Some (cursor (cm this)))]"
    if ok: "intercepted e \<noteq> ''(''" for e this
  proof -
    let ?q = "quarantined sampleEnv e this"
    let ?e1 = "fst ?q" and ?n = "fst (snd ?q)" and ?this1 = "snd (snd ?q)"
    let ?ed = "editLiteral ?n ?e1 ?this1"
    let ?sv = "saveEdit sampleEnv (fst ?ed) (el (fst ?ed)) (eventOn ''blur'' body) ?this1"
    from sampleEnv_places_sentinel[of "line (cursor (cm this))" "ch (cursor (cm this))"]
    obtain n0 rest where
      p: "rootNodes (parse sampleEnv (filler (cursor (cm this)) @ ''x'')) = n0 # rest"
      by (auto simp: filler_def)
    have q: "insertionQuarantine sampleEnv e this = Inr (?e1, ?n, ?this1)"
      by (simp add: quarantined_def insertionQuarantine_result[OF p] Let_def)
    have ed: "?ed = (fst ?ed, snd ?ed)" by simp
    have sv: "?sv = (fst ?sv, fst (snd ?sv), snd (snd ?sv))" by simp
    have g0: "getText (el ?n) = intercepted e"
      by (simp add: quarantined_def insertionQuarantine_result[OF p] Let_def
            getText_def props_onElem)
    then have g: "getText (el (fst ?ed)) = intercepted e"
      by (simp add: editLiteral_keeps)
    with ok have l: "lex sampleEnv (getText (el (fst ?ed))) = None"
      by (simp add: sampleEnv_def)
    have m: "quarantine (fst ?ed) = Some (length (calls (cm this)))"
      by (simp add: editLiteral_keeps quarantined_def insertionQuarantine_result[OF p] Let_def)
    from quarantine_commit[OF sampleEnv_places_sentinel q ed l sv] m
    have "doc (cm (snd (snd ?sv))) =
             take (indexFromPos (doc (cm this)) (cursor (cm this))) (doc (cm this)) @
             getText (el (fst ?ed)) @ '' '' @
             drop (indexFromPos (doc (cm this)) (cursor (cm this))) (doc (cm this))"
      and "issued this (snd (snd ?sv)) =
             [SetBookmark (length (calls (cm this))) (cursor (cm this)),
              BookmarkClear (length (calls (cm this))),
              ReplaceRange (getText (el (fst ?ed)) @ '' '') (cursor (cm this))
                (Some (cursor (cm this)))]"
      by auto
    then show ?thesis by (simp add: afterQuarantine_def Let_def g)
  qed
  have i1: "intercepted (pasteOf ''abc'') = ''abc''"
    by (simp add: intercepted_def pasteOf_def eventOn_def getData_def)
  have i2: "intercepted (keypressOf 122) = ''z''"
    by (simp add: intercepted_def keypressOf_def eventOn_def fromCharCode_def char_of_def
          bit_iff_odd)
  have c1: "cursor (cm bufferEmpty) = origin" "doc (cm bufferEmpty) = []"
    by (simp_all add: bufferEmpty_def constructor_def newEditor_def)
  have c2: "cursor (cm twoLines) = \<lparr>line = 1, ch = 1\<rparr>" "doc (cm twoLines) = ''ab'' @ newline # ''cd''"
           "calls (cm twoLines) = []"
    by (simp_all add: twoLines_def constructor_def newEditor_def)
  have 1: "doc (cm (afterQuarantine sampleEnv (pasteOf ''abc'') bufferEmpty)) = ''abc ''"
    using W[of "pasteOf ''abc''" bufferEmpty] by (simp add: i1 c1 indexFromPos_def origin_def)
  have 2: "doc (cm (afterQuarantine sampleEnv (keypressOf 122) twoLines)) = ''ab'' @ newline # ''cz d''"
    using W[of "keypressOf 122" twoLines] by (simp add: i2 c2 indexFromPos_def newline_def)
  have 3: "issued twoLines (afterQuarantine sampleEnv (keypressOf 122) twoLines) =
       [SetBookmark 0 \<lparr>line = 1, ch = 1\<rparr>, BookmarkClear 0,
        ReplaceRange ''z '' \<lparr>line = 1, ch = 1\<rparr> (Some \<lparr>line = 1, ch = 1\<rparr>)]"
    using W[of "keypressOf 122" twoLines] by (simp add: i2 c2)
  from 1 2 3 show ?thesis by simp
qed

text \<open>A character code beyond one byte does not wrap around to another character.\<close>

lemma fromCharCode_353: "fromCharCode 353 = [CHR 0xC5, CHR 0xA1]"
  by (simp add: fromCharCode_def char_of_def bit_iff_odd)

lemma fromCharCode_ascii: "n < 128 \<Longrightarrow> fromCharCode n = [char_of n]"
  by (simp add: fromCharCode_def)


section \<open>The flag for an invalid edit\<close>

text \<open>\<open>saveEdit\<close> raises the flag when the text does not lex, and never lowers it.\<close>

lemma hasInvalidEdit_saveEdit:
  "hasInvalidEdit (snd (snd (saveEdit E n nodeEl e this))) =
     (hasInvalidEdit this \<or> lex E (getText nodeEl) \<noteq> None)"
proof (cases "lex E (getText nodeEl)")
  case None
  then show ?thesis
    by (cases "quarantine n") (simp_all add: saveEdit_valid editBuffer_hasInvalidEdit)
next
  case (Some ex)
  then have "lex E (getText nodeEl) \<noteq> None" by simp
  from saveEdit_invalid[OF this] Some show ?thesis by simp
qed

lemma cancelIfErrorExists_suppresses:
  "hasInvalidEdit this \<Longrightarrow>
   defaultPrevented (cancelIfErrorExists e this) \<and> propagationStopped (cancelIfErrorExists e this)"
  by (simp add: cancelIfErrorExists_def stopPropagation_def preventDefault_def)

lemma cancelIfErrorExists_passes: "\<not> hasInvalidEdit this \<Longrightarrow> cancelIfErrorExists e this = e"
  by (simp add: cancelIfErrorExists_def)

text \<open>
  Claim C4, at a failing input. The node \<open>a\<close> is edited to \<open>(\<close>, which does not
  lex, and the blur raises the flag; then it is edited to \<open>z\<close>, which lexes, and the
  blur commits the text. The claim says that the commit clears the flag. No statement of
  the code lowers \<open>hasInvalidEdit\<close>: after the commit the flag is still raised, and
  \<open>cancelIfErrorExists\<close> goes on cancelling pointer events.
\<close>

theorem invalid_edit_flag_stays:
  "hasInvalidEdit treeABC = False
   \<and> hasInvalidEdit afterBadEdit = True
   \<and> doc (cm afterBadEdit) = ''a bb c''
   \<and> doc (cm afterGoodEdit) = ''z bb c''
   \<and> hasInvalidEdit afterGoodEdit = True
   \<and> defaultPrevented (cancelIfErrorExists (eventOn ''mousedown'' body) afterGoodEdit) = True
   \<and> propagationStopped (cancelIfErrorExists (eventOn ''mousedown'' body) afterGoodEdit) = True"
proof -
  let ?n = nodeA
  have b: "lex sampleEnv (getText (edited ?n ''('')) \<noteq> None"
    by (simp add: getText_edited sampleEnv_def)
  have g: "lex sampleEnv (getText (edited ?n ''z'')) = None"
    by (simp add: getText_edited sampleEnv_def)
  have 0: "hasInvalidEdit treeABC = False"
    by (simp add: treeABC_def bufferABC_def constructor_def)
  have 1: "hasInvalidEdit afterBadEdit = True"
    using b by (simp add: afterBadEdit_def hasInvalidEdit_saveEdit)
  have 2: "cm afterBadEdit = newEditor ''a bb c''"
    by (simp add: afterBadEdit_def saveEdit_invalid[OF b] checkEditableEl_cm treeABC_cm)
  have q: "quarantine nodeA = None" "nfrom nodeA = \<lparr>line = 0, ch = 0\<rparr>"
          "nto nodeA = \<lparr>line = 0, ch = Suc 0\<rparr>"
    by (simp_all add: nodeA_def literalNode_def)
  have 3: "doc (cm afterGoodEdit) = ''z bb c''"
    by (simp add: afterGoodEdit_def saveEdit_valid[OF g] q editBuffer_doc 2 getText_edited
          replaceRange_def newEditor_def indexFromPos_def newline_def)
  have 4: "hasInvalidEdit afterGoodEdit = True"
    using 1 by (simp add: afterGoodEdit_def hasInvalidEdit_saveEdit)
  from 0 1 2 3 4 cancelIfErrorExists_suppresses[of afterGoodEdit "eventOn ''mousedown'' body"]
  show ?thesis by (simp add: newEditor_def)
qed

section \<open>Properties of the navigation\<close>

lemma hiddenNode_hidden: "isNodeHidden hiddenNode"
  by (simp add: isNodeHidden_def hiddenNode_def contains_def nodeElement_def)

text \<open>
  When every node that the step function answers is hidden, the loop started at a hidden
  node never ends.
\<close>

lemma skipHidden_defined:
  assumes "skipHidden step n = Some r"
  shows "\<not> ((\<forall>x. \<exists>h. step x = Some h \<and> isNodeHidden h) \<and> (\<exists>h. n = Some h \<and> isNodeHidden h))"
proof (rule skipHidden.raw_induct[where P = "\<lambda>step n r.
         \<not> ((\<forall>x. \<exists>h. step x = Some h \<and> isNodeHidden h) \<and> (\<exists>h. n = Some h \<and> isNodeHidden h))",
       OF _ assms])
  fix f :: "(node + pos \<Rightarrow> node option) \<Rightarrow> node option \<Rightarrow> (error + node) option"
    and step n r
  assume ih: "\<And>step n r. f step n = Some r \<Longrightarrow>
         \<not> ((\<forall>x. \<exists>h. step x = Some h \<and> isNodeHidden h) \<and> (\<exists>h. n = Some h \<and> isNodeHidden h))"
    and b: "(case n of None \<Rightarrow> Some (Inl TypeError)
             | Some nd \<Rightarrow> if isNodeHidden nd then f step (step (Inl nd)) else Some (Inr nd)) = Some r"
  show "\<not> ((\<forall>x. \<exists>h. step x = Some h \<and> isNodeHidden h) \<and> (\<exists>h. n = Some h \<and> isNodeHidden h))"
  proof
    assume a: "(\<forall>x. \<exists>h. step x = Some h \<and> isNodeHidden h) \<and> (\<exists>h. n = Some h \<and> isNodeHidden h)"
    then obtain h where h: "n = Some h" "isNodeHidden h" by blast
    with b have "f step (step (Inl h)) = Some r" by simp
    from ih[OF this] a show False by blast
  qed
qed

lemma skipHidden_all_hidden:
  assumes "\<forall>x. \<exists>h. step x = Some h \<and> isNodeHidden h" and "isNodeHidden h"
  shows "skipHidden step (Some h) = None"
proof (cases "skipHidden step (Some h)")
  case None
  then show ?thesis .
next
  case (Some r)
  from skipHidden_defined[OF Some] assms show ?thesis by blast
qed

lemma skipHidden_missing: "skipHidden step None = Some (Inl TypeError)"
  by (simp add: skipHidden.simps)

lemma skipHidden_visible: "\<not> isNodeHidden n \<Longrightarrow> skipHidden step (Some n) = Some (Inr n)"
  by (simp add: skipHidden.simps)

text \<open>
  Claim C6, at failing inputs. The claim says that the traversal ends for every tree and
  start, and that it selects nothing when no visible node exists in the direction.
  \<^item> In an empty document the tree has no node, so \<open>getNodeAfter\<close> and
    \<open>getNodeBefore\<close> have none to answer: the loop condition reads \<open>el\<close> of the
    missing node and \<open>selectNextNode\<close> and \<open>selectPrevNode\<close> end with a
    \<open>TypeError\<close>.
  \<^item> The same happens in the tree of \<open>a bb c\<close> when the last node is selected and the
    successor answers none after the last node.
  \<^item> In a tree whose nodes are all hidden, with a successor and a predecessor that wrap
    around, the loop never ends: the two functions have no result.
\<close>

theorem selection_without_visible_node:
  "selectNextNode (eventOn ''keydown'' body) emptyDoc = Some (Inl TypeError)
   \<and> selectPrevNode (eventOn ''keydown'' body) emptyDoc = Some (Inl TypeError)
   \<and> selectNextNode (eventOn ''keydown'' (el nodeC)) lastSelected = Some (Inl TypeError)
   \<and> selectNextNode (eventOn ''keydown'' body) allHidden = None
   \<and> selectPrevNode (eventOn ''keydown'' body) allHidden = None"
proof -
  have g: "getSelectedNode emptyDoc = Inr None" "getSelectedNode allHidden = Inr None"
    by (simp_all add: getSelectedNode_def findNodeFromEl_def emptyDoc_def allHidden_def
          bufferEmpty_def bufferABC_def constructor_def body_def)
  have a: "ast emptyDoc = Some (treeOf [])" "ast allHidden = Some hiddenRing"
    by (simp_all add: emptyDoc_def allHidden_def)
  have 1: "selectNextNode (eventOn ''keydown'' body) emptyDoc = Some (Inl TypeError)"
    by (simp add: selectNextNode_def selectFrom_def g a treeOf_def afterIn_def skipHidden_missing)
  have 2: "selectPrevNode (eventOn ''keydown'' body) emptyDoc = Some (Inl TypeError)"
    by (simp add: selectPrevNode_def selectFrom_def g a treeOf_def beforeIn_def skipHidden_missing)
  have l: "getSelectedNode lastSelected = Inr (Some nodeC)"
          "ast lastSelected = Some (treeOf [nodeA, nodeB, nodeC])"
    by (simp_all add: getSelectedNode_def lastSelected_def findNodeFromEl_def element_of_node
          treeABC_ast treeABC_nodeMap)
  have n: "getNodeAfter (treeOf [nodeA, nodeB, nodeC]) (Inl nodeC) = None"
    by (simp add: treeOf_def afterIn_def nodeA_def nodeB_def nodeC_def literalNode_def
          blankNode_def)
  have 3: "selectNextNode (eventOn ''keydown'' (el nodeC)) lastSelected = Some (Inl TypeError)"
    by (simp add: selectNextNode_def selectFrom_def l n skipHidden_missing)
  have r: "skipHidden (\<lambda>x. Some hiddenNode) (Some hiddenNode) = None"
    by (rule skipHidden_all_hidden) (simp_all add: hiddenNode_hidden)
  have 4: "selectNextNode (eventOn ''keydown'' body) allHidden = None"
    by (simp add: selectNextNode_def selectFrom_def g a hiddenRing_def r)
  have 5: "selectPrevNode (eventOn ''keydown'' body) allHidden = None"
    by (simp add: selectPrevNode_def selectFrom_def g a hiddenRing_def r)
  from 1 2 3 4 5 show ?thesis by simp
qed

text \<open>
  What the code does give: the loop passes over a hidden node, and at a visible node it
  ends and the selection moves there.
\<close>

lemma skipHidden_hidden:
  "isNodeHidden h \<Longrightarrow> skipHidden step (Some h) = skipHidden step (step (Inl h))"
  by (simp add: skipHidden.simps[of step "Some h"])

lemma selectNextNode_visible:
  assumes "getSelectedNode this = Inr sel" and "ast this = Some a"
      and "getNodeAfter a (case sel of Some n \<Rightarrow> Inl n | None \<Rightarrow> Inr (cursor (cm this))) = Some n"
      and "\<not> isNodeHidden n"
  shows "selectNextNode e this = Some (Inr (selectNode n e this))"
  using assms by (simp add: selectNextNode_def selectFrom_def skipHidden.simps)

section \<open>Properties of the mode switch\<close>

lemma setBlockMode_same: "setBlockMode E (blockMode this) this = Inr this"
  by (simp add: setBlockMode_def)

text \<open>Turning block mode off clears the markers and leaves the wrapper's classes.\<close>

lemma setBlockMode_off:
  "m \<noteq> blockMode this \<Longrightarrow> \<not> truthy m \<Longrightarrow>
   setBlockMode E m this = Inr (this\<lparr>cm := (cm this)\<lparr>marks := []\<rparr>, blockMode := m\<rparr>)"
  by (simp add: setBlockMode_def)

lemma wrapper_renderAll: "wrapper (cm (renderAll E this)) = wrapper (cm this)"
  by (simp add: renderAll_def clearMarks_def clearMarks_in_def Let_def)

text \<open>Turning a block mode on swaps the class of the old mode for the class of the new one.\<close>

lemma setBlockMode_on:
  assumes "m \<noteq> blockMode this" and "truthy m"
      and "tokenError (toToken m) = None" and "tokenError (toToken (blockMode this)) = None"
  shows "\<exists>this'. setBlockMode E m this = Inr this' \<and> blockMode this' = m \<and>
           set (wrapper (cm this')) =
             insert (toToken m) (set (wrapper (cm this)) - {toToken (blockMode this)})"
  using assms
  by (auto simp: setBlockMode_def wrapperRemove_def wrapperAdd_def wrapper_renderAll)

lemma blocks_on:
  "setBlockMode sampleEnv (JStr ''blocks'') treeABC =
     Inr ((renderAll sampleEnv
            (treeABC\<lparr>cm := (cm treeABC)\<lparr>wrapper := [''CodeMirror'', ''blocks'']\<rparr>\<rparr>))
          \<lparr>blockMode := JStr ''blocks''\<rparr>)"
proof -
  have m: "blockMode treeABC = JFalse" "wrapper (cm treeABC) = [''CodeMirror'']"
    by (simp_all add: treeABC_def bufferABC_def constructor_def newEditor_def)
  have t: "tokenError ''false'' = None" "tokenError ''blocks'' = None"
    by (simp_all add: tokenError_def)
  show ?thesis
    by (simp add: setBlockMode_def m wrapperRemove_def wrapperAdd_def t)
qed

text \<open>
  Claim C8, at a failing input. Block mode \<open>blocks\<close> is turned on for the buffer
  \<open>a bb c\<close>, which puts the class \<open>blocks\<close> on the wrapper, and then it is turned
  off. The claim says that every transition swaps the mode class, the one that turns block
  mode off too. The branch of \<open>setBlockMode\<close> for turning off only clears the markers:
  afterwards \<open>blockMode\<close> is \<open>false\<close> and the wrapper still carries \<open>blocks\<close>.
\<close>

theorem block_mode_off_keeps_class:
  "(case setBlockMode sampleEnv (JStr ''blocks'') treeABC of
      Inl err \<Rightarrow> False
    | Inr on \<Rightarrow>
        blockMode on = JStr ''blocks'' \<and> wrapper (cm on) = [''CodeMirror'', ''blocks''] \<and>
        (case setBlockMode sampleEnv JFalse on of
           Inl err \<Rightarrow> False
         | Inr off \<Rightarrow> blockMode off = JFalse \<and> wrapper (cm off) = [''CodeMirror'', ''blocks'']))"
  by (simp add: blocks_on wrapper_renderAll setBlockMode_off)

end
